theory Spec2Isabelle
  imports Main
begin

section \<open>Common types\<close>

text \<open>
  Document identifiers (\<^verbatim>\<open>ObjectId\<close>) are modelled as natural numbers: the code only
  compares them for equality. Every \<^verbatim>\<open>throw new ApiError(status, message)\<close> and every
  error raised by the persistence layer is a value of \<open>error\<close>; an operation returns its
  outcome together with the collection it leaves behind, so that a write made before a
  throw stays visible.
\<close>

type_synonym objectId = nat

datatype error =
    NOT_FOUND string
  | BAD_REQUEST string
  | ValidationError string
  | Error string

subsection \<open>Strings and the schema setters \<^verbatim>\<open>trim\<close> and \<^verbatim>\<open>lowercase\<close>\<close>

text \<open>
  A string is a list of 8-bit characters, read as the code units below 256.
  \<^verbatim>\<open>String.prototype.trim\<close> removes white space at both ends; below 256 the white space
  and line terminator characters are tab, line feed, vertical tab, form feed, carriage
  return, space and the no-break space. \<^verbatim>\<open>toLowerCase\<close> maps the letters \<open>A\<close> to \<open>Z\<close> and
  the capital letters of the range \<open>0xC0\<close> to \<open>0xDE\<close> (without the multiplication sign
  \<open>0xD7\<close>) to the character \<open>0x20\<close> above them.
\<close>

definition isWhitespace :: "char \<Rightarrow> bool" where
  "isWhitespace c =
     (c \<in> set [CHR 0x09, CHR 0x0A, CHR 0x0B, CHR 0x0C, CHR 0x0D, CHR 0x20, CHR 0xA0])"

definition trim :: "string \<Rightarrow> string" where
  "trim s = rev (dropWhile isWhitespace (rev (dropWhile isWhitespace s)))"

definition upperCaseChars :: "char list" where
  "upperCaseChars =
     ''ABCDEFGHIJKLMNOPQRSTUVWXYZ'' @
     [CHR 0xC0, CHR 0xC1, CHR 0xC2, CHR 0xC3, CHR 0xC4, CHR 0xC5, CHR 0xC6, CHR 0xC7,
      CHR 0xC8, CHR 0xC9, CHR 0xCA, CHR 0xCB, CHR 0xCC, CHR 0xCD, CHR 0xCE, CHR 0xCF,
      CHR 0xD0, CHR 0xD1, CHR 0xD2, CHR 0xD3, CHR 0xD4, CHR 0xD5, CHR 0xD6,
      CHR 0xD8, CHR 0xD9, CHR 0xDA, CHR 0xDB, CHR 0xDC, CHR 0xDD, CHR 0xDE]"

definition lowerCaseChars :: "char list" where
  "lowerCaseChars =
     ''abcdefghijklmnopqrstuvwxyz'' @
     [CHR 0xE0, CHR 0xE1, CHR 0xE2, CHR 0xE3, CHR 0xE4, CHR 0xE5, CHR 0xE6, CHR 0xE7,
      CHR 0xE8, CHR 0xE9, CHR 0xEA, CHR 0xEB, CHR 0xEC, CHR 0xED, CHR 0xEE, CHR 0xEF,
      CHR 0xF0, CHR 0xF1, CHR 0xF2, CHR 0xF3, CHR 0xF4, CHR 0xF5, CHR 0xF6,
      CHR 0xF8, CHR 0xF9, CHR 0xFA, CHR 0xFB, CHR 0xFC, CHR 0xFD, CHR 0xFE]"

definition toLowerCaseChar :: "char \<Rightarrow> char" where
  "toLowerCaseChar c =
     (case map_of (zip upperCaseChars lowerCaseChars) c of Some l \<Rightarrow> l | None \<Rightarrow> c)"

definition toLowerCase :: "string \<Rightarrow> string" where
  "toLowerCase s = map toLowerCaseChar s"

section \<open>Engagement state of a content item (question.model.js, post.model.js)\<close>

text \<open>
  The engagement fields of \<^verbatim>\<open>questionSchema\<close>. \<^verbatim>\<open>postSchema\<close> declares the same eight
  fields with the same defaults, and its seven methods are the same text as the question
  methods, so one record and one set of definitions stand for both. Counters are
  JavaScript numbers that are only ever changed by \<open>+= 1\<close> and \<open>-= 1\<close>; they
  are modelled as integers.
\<close>

record content =
  likeCount :: int
  unlikeCount :: int
  saveCount :: int
  shareCount :: int
  likedBy :: "objectId list"
  dislikedBy :: "objectId list"
  savedBy :: "objectId list"
  sharedBy :: "objectId list"

text \<open>The schema defaults: counters \<open>0\<close>, arrays empty.\<close>

definition newContent :: content where
  "newContent =
     \<lparr>likeCount = 0, unlikeCount = 0, saveCount = 0, shareCount = 0,
      likedBy = [], dislikedBy = [], savedBy = [], sharedBy = []\<rparr>"

subsection \<open>The array primitives the methods use\<close>

text \<open>\<^verbatim>\<open>Array.prototype.includes\<close>, \<^verbatim>\<open>indexOf\<close> (first index, or \<open>-1\<close>), \<^verbatim>\<open>push\<close> (append at
  the end) and \<^verbatim>\<open>splice(i, 1)\<close> (remove the element at index \<open>i\<close>).\<close>

definition array_includes :: "'a list \<Rightarrow> 'a \<Rightarrow> bool" where
  "array_includes xs x = (x \<in> set xs)"

fun indexOf :: "'a list \<Rightarrow> 'a \<Rightarrow> int" where
  "indexOf [] x = - 1"
| "indexOf (y # ys) x =
     (if y = x then 0
      else (let i = indexOf ys x in if i = - 1 then - 1 else i + 1))"

definition push :: "'a list \<Rightarrow> 'a \<Rightarrow> 'a list" where
  "push xs x = xs @ [x]"

definition splice1 :: "'a list \<Rightarrow> int \<Rightarrow> 'a list" where
  "splice1 xs i = take (nat i) xs @ drop (Suc (nat i)) xs"

subsection \<open>The schema methods\<close>

definition addLike :: "objectId \<Rightarrow> content \<Rightarrow> content" where
  "addLike profileId this =
     (if \<not> array_includes (likedBy this) profileId then
        (let this1 = this\<lparr>likedBy := push (likedBy this) profileId,
                          likeCount := likeCount this + 1\<rparr>;
             dislikeIndex = indexOf (dislikedBy this1) profileId
         in if dislikeIndex \<noteq> - 1
            then this1\<lparr>dislikedBy := splice1 (dislikedBy this1) dislikeIndex,
                       unlikeCount := unlikeCount this1 - 1\<rparr>
            else this1)
      else this)"

definition removeLike :: "objectId \<Rightarrow> content \<Rightarrow> content" where
  "removeLike profileId this =
     (let index = indexOf (likedBy this) profileId
      in if index \<noteq> - 1
         then this\<lparr>likedBy := splice1 (likedBy this) index,
                   likeCount := likeCount this - 1\<rparr>
         else this)"

definition addDislike :: "objectId \<Rightarrow> content \<Rightarrow> content" where
  "addDislike profileId this =
     (if \<not> array_includes (dislikedBy this) profileId then
        (let this1 = this\<lparr>dislikedBy := push (dislikedBy this) profileId,
                          unlikeCount := unlikeCount this + 1\<rparr>;
             likeIndex = indexOf (likedBy this1) profileId
         in if likeIndex \<noteq> - 1
            then this1\<lparr>likedBy := splice1 (likedBy this1) likeIndex,
                       likeCount := likeCount this1 - 1\<rparr>
            else this1)
      else this)"

definition removeDislike :: "objectId \<Rightarrow> content \<Rightarrow> content" where
  "removeDislike profileId this =
     (let index = indexOf (dislikedBy this) profileId
      in if index \<noteq> - 1
         then this\<lparr>dislikedBy := splice1 (dislikedBy this) index,
                   unlikeCount := unlikeCount this - 1\<rparr>
         else this)"

definition addSave :: "objectId \<Rightarrow> content \<Rightarrow> content" where
  "addSave profileId this =
     (if \<not> array_includes (savedBy this) profileId
      then this\<lparr>savedBy := push (savedBy this) profileId,
                saveCount := saveCount this + 1\<rparr>
      else this)"

definition removeSave :: "objectId \<Rightarrow> content \<Rightarrow> content" where
  "removeSave profileId this =
     (let index = indexOf (savedBy this) profileId
      in if index \<noteq> - 1
         then this\<lparr>savedBy := splice1 (savedBy this) index,
                   saveCount := saveCount this - 1\<rparr>
         else this)"

definition addShare :: "objectId \<Rightarrow> content \<Rightarrow> content" where
  "addShare profileId this =
     (if \<not> array_includes (sharedBy this) profileId
      then this\<lparr>sharedBy := push (sharedBy this) profileId,
                shareCount := shareCount this + 1\<rparr>
      else this)"

subsection \<open>The question service (question.service.js)\<close>

text \<open>
  The collection of questions is a map from \<^verbatim>\<open>_id\<close> to the stored document.
  Every method ends in \<^verbatim>\<open>return this.save()\<close>: the changed document is written back under
  its \<^verbatim>\<open>_id\<close> and returned. A loaded document is taken to pass the schema's validation
  again when saved (the engagement methods touch no validated path).
\<close>

type_synonym questions = "objectId \<rightharpoonup> content"

definition getQuestionById :: "objectId \<Rightarrow> questions \<Rightarrow> content option" where
  "getQuestionById questionId qs = qs questionId"

definition saveQuestionDoc ::
  "objectId \<Rightarrow> content \<Rightarrow> questions \<Rightarrow> (error + content) \<times> questions" where
  "saveQuestionDoc questionId doc qs = (Inr doc, qs(questionId \<mapsto> doc))"

definition likeQuestion ::
  "objectId \<Rightarrow> objectId \<Rightarrow> questions \<Rightarrow> (error + content) \<times> questions" where
  "likeQuestion questionId profileId qs =
     (case getQuestionById questionId qs of
        None \<Rightarrow> (Inl (NOT_FOUND ''Question not found''), qs)
      | Some question \<Rightarrow> saveQuestionDoc questionId (addLike profileId question) qs)"

definition unlikeQuestion ::
  "objectId \<Rightarrow> objectId \<Rightarrow> questions \<Rightarrow> (error + content) \<times> questions" where
  "unlikeQuestion questionId profileId qs =
     (case getQuestionById questionId qs of
        None \<Rightarrow> (Inl (NOT_FOUND ''Question not found''), qs)
      | Some question \<Rightarrow> saveQuestionDoc questionId (removeLike profileId question) qs)"

definition dislikeQuestion ::
  "objectId \<Rightarrow> objectId \<Rightarrow> questions \<Rightarrow> (error + content) \<times> questions" where
  "dislikeQuestion questionId profileId qs =
     (case getQuestionById questionId qs of
        None \<Rightarrow> (Inl (NOT_FOUND ''Question not found''), qs)
      | Some question \<Rightarrow> saveQuestionDoc questionId (addDislike profileId question) qs)"

definition removeDislikeQuestion ::
  "objectId \<Rightarrow> objectId \<Rightarrow> questions \<Rightarrow> (error + content) \<times> questions" where
  "removeDislikeQuestion questionId profileId qs =
     (case getQuestionById questionId qs of
        None \<Rightarrow> (Inl (NOT_FOUND ''Question not found''), qs)
      | Some question \<Rightarrow> saveQuestionDoc questionId (removeDislike profileId question) qs)"

definition saveQuestion ::
  "objectId \<Rightarrow> objectId \<Rightarrow> questions \<Rightarrow> (error + content) \<times> questions" where
  "saveQuestion questionId profileId qs =
     (case getQuestionById questionId qs of
        None \<Rightarrow> (Inl (NOT_FOUND ''Question not found''), qs)
      | Some question \<Rightarrow> saveQuestionDoc questionId (addSave profileId question) qs)"

definition unsaveQuestion ::
  "objectId \<Rightarrow> objectId \<Rightarrow> questions \<Rightarrow> (error + content) \<times> questions" where
  "unsaveQuestion questionId profileId qs =
     (case getQuestionById questionId qs of
        None \<Rightarrow> (Inl (NOT_FOUND ''Question not found''), qs)
      | Some question \<Rightarrow> saveQuestionDoc questionId (removeSave profileId question) qs)"

definition shareQuestion ::
  "objectId \<Rightarrow> objectId \<Rightarrow> questions \<Rightarrow> (error + content) \<times> questions" where
  "shareQuestion questionId profileId qs =
     (case getQuestionById questionId qs of
        None \<Rightarrow> (Inl (NOT_FOUND ''Question not found''), qs)
      | Some question \<Rightarrow> saveQuestionDoc questionId (addShare profileId question) qs)"

subsection \<open>Sequences of engagement operations\<close>

datatype engagementOp =
  AddLike | RemoveLike | AddDislike | RemoveDislike | AddSave | RemoveSave | AddShare

fun applyOp :: "engagementOp \<Rightarrow> objectId \<Rightarrow> content \<Rightarrow> content" where
  "applyOp AddLike p c = addLike p c"
| "applyOp RemoveLike p c = removeLike p c"
| "applyOp AddDislike p c = addDislike p c"
| "applyOp RemoveDislike p c = removeDislike p c"
| "applyOp AddSave p c = addSave p c"
| "applyOp RemoveSave p c = removeSave p c"
| "applyOp AddShare p c = addShare p c"

fun applyOps :: "(engagementOp \<times> objectId) list \<Rightarrow> content \<Rightarrow> content" where
  "applyOps [] c = c"
| "applyOps ((oper, p) # rest) c = applyOps rest (applyOp oper p c)"

text \<open>The service entry point of each operation.\<close>

fun engage ::
  "engagementOp \<Rightarrow> objectId \<Rightarrow> objectId \<Rightarrow> questions \<Rightarrow> (error + content) \<times> questions" where
  "engage AddLike = likeQuestion"
| "engage RemoveLike = unlikeQuestion"
| "engage AddDislike = dislikeQuestion"
| "engage RemoveDislike = removeDislikeQuestion"
| "engage AddSave = saveQuestion"
| "engage RemoveSave = unsaveQuestion"
| "engage AddShare = shareQuestion"

text \<open>Whether the operation finds the reaction already in the state it asks for: an add
  whose profile is already a member, a remove whose profile is not.\<close>

fun alreadyDone :: "engagementOp \<Rightarrow> objectId \<Rightarrow> content \<Rightarrow> bool" where
  "alreadyDone AddLike p c = array_includes (likedBy c) p"
| "alreadyDone RemoveLike p c = (\<not> array_includes (likedBy c) p)"
| "alreadyDone AddDislike p c = array_includes (dislikedBy c) p"
| "alreadyDone RemoveDislike p c = (\<not> array_includes (dislikedBy c) p)"
| "alreadyDone AddSave p c = array_includes (savedBy c) p"
| "alreadyDone RemoveSave p c = (\<not> array_includes (savedBy c) p)"
| "alreadyDone AddShare p c = array_includes (sharedBy c) p"

fun isAdd :: "engagementOp \<Rightarrow> bool" where
  "isAdd AddLike = True"
| "isAdd AddDislike = True"
| "isAdd AddSave = True"
| "isAdd AddShare = True"
| "isAdd _ = False"

subsection \<open>Invariants of the engagement state\<close>

definition mutuallyExclusive :: "content \<Rightarrow> bool" where
  "mutuallyExclusive c = (set (likedBy c) \<inter> set (dislikedBy c) = {})"

definition countersMatch :: "content \<Rightarrow> bool" where
  "countersMatch c =
     (likeCount c = int (length (likedBy c)) \<and>
      unlikeCount c = int (length (dislikedBy c)) \<and>
      saveCount c = int (length (savedBy c)) \<and>
      shareCount c = int (length (sharedBy c)))"

definition engagementInvariant :: "content \<Rightarrow> bool" where
  "engagementInvariant c = (mutuallyExclusive c \<and> countersMatch c)"

definition duplicateFree :: "content \<Rightarrow> bool" where
  "duplicateFree c =
     (distinct (likedBy c) \<and> distinct (dislikedBy c) \<and>
      distinct (savedBy c) \<and> distinct (sharedBy c))"

section \<open>Profiles (profile.model.js, profile.service.js)\<close>

datatype profileType = TypePublic | TypeAnonymous

datatype profileStatus = StatusPrivate | StatusPublic

datatype profilePrivacy = PrivacyPublic | PrivacyPrivate | PrivacyFriends

text \<open>The nested \<^verbatim>\<open>settings\<close> of a stored profile.\<close>

record notifications =
  n_email :: bool
  n_push :: bool
  n_sms :: bool

record settings =
  privacy :: profilePrivacy
  notifications :: notifications

text \<open>
  The \<^verbatim>\<open>metadata\<close> of a profile is a map from strings to values of any kind that no
  operation inspects. It is an opaque type here: a value of it is a map that the
  \<^verbatim>\<open>Map\<close> type of the schema accepts.
\<close>

typedecl metadataMap

text \<open>
  A stored profile document. \<open>p_id\<close> is the document's \<^verbatim>\<open>_id\<close>. A missing \<^verbatim>\<open>bio\<close> is the
  empty string here (no validator and no operation tells them apart), a missing
  \<^verbatim>\<open>avatar\<close> is \<open>None\<close>, and \<open>None\<close> for \<^verbatim>\<open>metadata\<close> is the schema's default, the empty
  map.
\<close>

record profile =
  p_id :: objectId
  userId :: objectId
  profileName :: string
  displayName :: string
  bio :: string
  avatar :: "string option"
  profileType :: profileType
  status :: profileStatus
  isActive :: bool
  isDefault :: bool
  settings :: settings
  metadata :: "metadataMap option"

text \<open>The argument of \<^verbatim>\<open>createProfile\<close>; \<open>None\<close> is a key the caller left out.\<close>

record notificationsBody =
  nb_email :: "bool option"
  nb_push :: "bool option"
  nb_sms :: "bool option"

record settingsBody =
  sb_privacy :: "profilePrivacy option"
  sb_notifications :: "notificationsBody option"

record profileBody =
  b_userId :: objectId
  b_profileName :: string
  b_displayName :: string
  b_bio :: "string option"
  b_avatar :: "string option"
  b_profileType :: "profileType option"
  b_status :: "profileStatus option"
  b_isActive :: "bool option"
  b_isDefault :: "bool option"
  b_settings :: "settingsBody option"
  b_metadata :: "metadataMap option"

text \<open>
  The argument \<^verbatim>\<open>updateBody\<close> of \<^verbatim>\<open>updateProfileById\<close>. The keys \<^verbatim>\<open>settings\<close> and
  \<^verbatim>\<open>metadata\<close> of an update are not represented: how a nested object and a map are
  assigned is the library's own, and no property below depends on them.
\<close>

record profilePatch =
  u_profileName :: "string option"
  u_displayName :: "string option"
  u_bio :: "string option"
  u_avatar :: "string option"
  u_profileType :: "profileType option"
  u_status :: "profileStatus option"
  u_isActive :: "bool option"
  u_isDefault :: "bool option"

subsection \<open>The collection and its queries\<close>

text \<open>
  The collection is the list of its documents in insertion order, so that
  \<^verbatim>\<open>findOne\<close> returns the first match. \<^verbatim>\<open>updateOne\<close> and \<^verbatim>\<open>deleteOne\<close> act on the first
  match only, \<^verbatim>\<open>updateMany\<close> on every match.
\<close>

type_synonym profileCollection = "profile list"

definition findOne :: "(profile \<Rightarrow> bool) \<Rightarrow> profileCollection \<Rightarrow> profile option" where
  "findOne f ps = find f ps"

definition updateMany ::
  "(profile \<Rightarrow> bool) \<Rightarrow> (profile \<Rightarrow> profile) \<Rightarrow> profileCollection \<Rightarrow> profileCollection" where
  "updateMany f g ps = map (\<lambda>p. if f p then g p else p) ps"

fun updateOne ::
  "(profile \<Rightarrow> bool) \<Rightarrow> (profile \<Rightarrow> profile) \<Rightarrow> profileCollection \<Rightarrow> profileCollection" where
  "updateOne f g [] = []"
| "updateOne f g (p # ps) = (if f p then g p # ps else p # updateOne f g ps)"

fun deleteOne :: "(profile \<Rightarrow> bool) \<Rightarrow> profileCollection \<Rightarrow> profileCollection" where
  "deleteOne f [] = []"
| "deleteOne f (p # ps) = (if f p then ps else p # deleteOne f ps)"

text \<open>The \<^verbatim>\<open>_id\<close> given to a new document: one that no stored document carries.\<close>

text \<open>The profiles of one account.\<close>

definition profilesOf :: "objectId \<Rightarrow> profileCollection \<Rightarrow> profile list" where
  "profilesOf uid ps = filter (\<lambda>p. userId p = uid) ps"

definition newObjectId :: "profileCollection \<Rightarrow> objectId" where
  "newObjectId ps = Suc (fold max (map p_id ps) 0)"

subsection \<open>Schema validation and the two pre-save hooks (profile.model.js)\<close>

text \<open>
  The validators run on the stored values, that is, after the \<^verbatim>\<open>trim\<close> setters.
  \<^verbatim>\<open>profileName\<close> and \<^verbatim>\<open>displayName\<close> are required strings (the empty string does not
  satisfy \<^verbatim>\<open>required\<close>), \<^verbatim>\<open>profileName\<close> has the custom validator \<open>length < 2\<close>,
  \<^verbatim>\<open>bio\<close> has \<^verbatim>\<open>maxlength: 500\<close>, and \<^verbatim>\<open>avatar\<close> has the custom validator
  \<^verbatim>\<open>value && !validator.isURL(value)\<close>. \<^verbatim>\<open>validator.isURL\<close> belongs to a package outside
  the repository: it is the parameter \<open>isURL\<close>. The enumerations are types here, so
  their \<^verbatim>\<open>enum\<close> validators cannot fail. The library reports all failed validators in one
  validation error; the model reports the first.
\<close>

definition validateProfile :: "(string \<Rightarrow> bool) \<Rightarrow> profile \<Rightarrow> error option" where
  "validateProfile isURL doc =
     (if profileName doc = [] then Some (ValidationError ''profileName is required'')
      else if length (profileName doc) < 2
        then Some (ValidationError ''Profile name must be at least 2 characters long'')
      else if displayName doc = [] then Some (ValidationError ''displayName is required'')
      else if 500 < length (bio doc) then Some (ValidationError ''bio is longer than 500'')
      else if (case avatar doc of Some value \<Rightarrow> value \<noteq> [] \<and> \<not> isURL value | None \<Rightarrow> False)
        then Some (ValidationError ''Avatar must be a valid URL'')
      else None)"

text \<open>
  The first hook: \<^verbatim>\<open>if (profile.isModified('isDefault') && profile.isDefault)\<close> unset the
  flag on every other profile of the user. The first argument is the value of
  \<^verbatim>\<open>isModified('isDefault')\<close>.
\<close>

definition preSaveDefault :: "bool \<Rightarrow> profile \<Rightarrow> profileCollection \<Rightarrow> profileCollection" where
  "preSaveDefault modified doc ps =
     (if modified \<and> isDefault doc
      then updateMany (\<lambda>p. userId p = userId doc \<and> p_id p \<noteq> p_id doc)
             (\<lambda>p. p\<lparr>isDefault := False\<rparr>) ps
      else ps)"

text \<open>The second hook: \<^verbatim>\<open>if (profile.isModified('profileName'))\<close> look for another
  profile of the user with that name and throw when there is one. The name of the
  document has been through the setter already, and trimming a trimmed name changes
  nothing (lemma \<open>trim_idem\<close> below), so the cast of this query is the identity.\<close>

definition preSaveName :: "bool \<Rightarrow> profile \<Rightarrow> profileCollection \<Rightarrow> error option" where
  "preSaveName modified doc ps =
     (if modified then
        (case findOne (\<lambda>p. profileName p = profileName doc \<and> userId p = userId doc \<and>
                          p_id p \<noteq> p_id doc) ps of
           Some existingProfile \<Rightarrow> Some (Error ''Profile name already exists for this user'')
         | None \<Rightarrow> None)
      else None)"

text \<open>
  \<^verbatim>\<open>document.save()\<close>. The first argument is the document as it was loaded, or \<open>None\<close>
  for a new document (\<^verbatim>\<open>Profile.create\<close> is \<^verbatim>\<open>new Profile(doc).save()\<close>). Validation runs
  first, then the hooks in the order of their registration, then the write: an insert
  for a new document, an update of the stored document with that \<^verbatim>\<open>_id\<close> otherwise.

  \<^verbatim>\<open>isModified(path)\<close> is true for a path of a new document that the constructor was
  given a value for (the password hook of user.model.js relies on the same fact to hash
  the password of a created user), and true for a loaded document when the value
  differs from the loaded one. \<^verbatim>\<open>createProfile\<close> always passes both \<^verbatim>\<open>isDefault\<close> and
  \<^verbatim>\<open>profileName\<close>.

  The write of a loaded document sets the modified paths; as the stored document still
  equals the loaded one (the first hook never touches the document being saved), this is
  the replacement of the stored document by the saved one. The unique index on
  \<^verbatim>\<open>(userId, profileName)\<close> rejects exactly the writes that the second hook has already
  rejected.
\<close>

definition saveProfile ::
  "(string \<Rightarrow> bool) \<Rightarrow> profile option \<Rightarrow> profile \<Rightarrow> profileCollection \<Rightarrow>
   (error + profile) \<times> profileCollection" where
  "saveProfile isURL loaded doc ps =
     (case validateProfile isURL doc of
        Some e \<Rightarrow> (Inl e, ps)
      | None \<Rightarrow>
          (let modifiedDefault =
                 (case loaded of None \<Rightarrow> True | Some old \<Rightarrow> isDefault doc \<noteq> isDefault old);
               modifiedName =
                 (case loaded of None \<Rightarrow> True | Some old \<Rightarrow> profileName doc \<noteq> profileName old);
               ps1 = preSaveDefault modifiedDefault doc ps
           in case preSaveName modifiedName doc ps1 of
                Some e \<Rightarrow> (Inl e, ps1)
              | None \<Rightarrow>
                  (Inr doc,
                   (case loaded of
                      None \<Rightarrow> ps1 @ [doc]
                    | Some old \<Rightarrow> updateOne (\<lambda>p. p_id p = p_id doc) (\<lambda>p. doc) ps1))))"

subsection \<open>The profile service\<close>

text \<open>
  The filter of a query is cast with the schema, setters included: the name the
  collection is searched for is the trimmed one. \<^verbatim>\<open>excludeProfileId\<close> is \<open>None\<close> when
  the caller leaves it out: then \<^verbatim>\<open>{ $ne: undefined }\<close> excludes no document.
\<close>

definition isProfileNameTaken ::
  "string \<Rightarrow> objectId \<Rightarrow> objectId option \<Rightarrow> profileCollection \<Rightarrow> bool" where
  "isProfileNameTaken name uid excludeProfileId ps =
     (findOne (\<lambda>p. profileName p = trim name \<and> userId p = uid \<and>
                    Some (p_id p) \<noteq> excludeProfileId) ps \<noteq> None)"

text \<open>The schema defaults of the nested \<^verbatim>\<open>settings\<close>, applied leaf by leaf.\<close>

definition newNotifications :: "notificationsBody option \<Rightarrow> notifications" where
  "newNotifications nb =
     \<lparr>n_email = (case nb of Some b \<Rightarrow> (case nb_email b of Some v \<Rightarrow> v | None \<Rightarrow> True)
                          | None \<Rightarrow> True),
      n_push = (case nb of Some b \<Rightarrow> (case nb_push b of Some v \<Rightarrow> v | None \<Rightarrow> True)
                         | None \<Rightarrow> True),
      n_sms = (case nb of Some b \<Rightarrow> (case nb_sms b of Some v \<Rightarrow> v | None \<Rightarrow> False)
                        | None \<Rightarrow> False)\<rparr>"

definition newSettings :: "settingsBody option \<Rightarrow> settings" where
  "newSettings sb =
     \<lparr>privacy = (case sb of Some b \<Rightarrow> (case sb_privacy b of Some v \<Rightarrow> v | None \<Rightarrow> PrivacyPublic)
                          | None \<Rightarrow> PrivacyPublic),
      notifications = newNotifications (case sb of Some b \<Rightarrow> sb_notifications b | None \<Rightarrow> None)\<rparr>"

text \<open>The document \<^verbatim>\<open>Profile.create\<close> builds from the body: the given fields, the four
  strings passed through their \<^verbatim>\<open>trim\<close> setter, the schema defaults for the missing
  fields, and a new \<^verbatim>\<open>_id\<close>.\<close>

definition newProfile :: "profileBody \<Rightarrow> bool \<Rightarrow> profileCollection \<Rightarrow> profile" where
  "newProfile profileBody isDefaultValue ps =
     \<lparr>p_id = newObjectId ps,
      userId = b_userId profileBody,
      profileName = trim (b_profileName profileBody),
      displayName = trim (b_displayName profileBody),
      bio = (case b_bio profileBody of Some t \<Rightarrow> trim t | None \<Rightarrow> []),
      avatar = map_option trim (b_avatar profileBody),
      profileType = (case b_profileType profileBody of Some t \<Rightarrow> t | None \<Rightarrow> TypePublic),
      status = (case b_status profileBody of Some t \<Rightarrow> t | None \<Rightarrow> StatusPublic),
      isActive = (case b_isActive profileBody of Some a \<Rightarrow> a | None \<Rightarrow> True),
      isDefault = isDefaultValue,
      settings = newSettings (b_settings profileBody),
      metadata = b_metadata profileBody\<rparr>"

definition createProfile ::
  "(string \<Rightarrow> bool) \<Rightarrow> profileBody \<Rightarrow> profileCollection \<Rightarrow>
   (error + profile) \<times> profileCollection" where
  "createProfile isURL profileBody ps =
     (let isNameTaken =
            isProfileNameTaken (b_profileName profileBody) (b_userId profileBody) None ps
      in if isNameTaken
         then (Inl (BAD_REQUEST ''Profile name already exists for this user''), ps)
         else
           (let existingProfiles = filter (\<lambda>p. userId p = b_userId profileBody) ps;
                isFirstProfile = (length existingProfiles = 0)
            in saveProfile isURL None
                 (newProfile profileBody
                    (isFirstProfile \<or> b_isDefault profileBody = Some True) ps) ps))"

text \<open>Whether the document built from a body passes the schema validation (the outcome
  depends neither on the \<^verbatim>\<open>_id\<close> nor on the default flag).\<close>

definition bodyPassesValidation :: "(string \<Rightarrow> bool) \<Rightarrow> profileBody \<Rightarrow> bool" where
  "bodyPassesValidation isURL profileBody =
     (validateProfile isURL (newProfile profileBody False []) = None)"

text \<open>The document \<^verbatim>\<open>createProfile\<close> hands to \<^verbatim>\<open>Profile.create\<close>.\<close>

definition createdDoc :: "profileBody \<Rightarrow> profileCollection \<Rightarrow> profile" where
  "createdDoc profileBody ps =
     newProfile profileBody
       (profilesOf (b_userId profileBody) ps = [] \<or> b_isDefault profileBody = Some True) ps"

definition getProfileById :: "objectId \<Rightarrow> profileCollection \<Rightarrow> profile option" where
  "getProfileById ident ps = findOne (\<lambda>p. p_id p = ident) ps"

definition getDefaultProfile :: "objectId \<Rightarrow> profileCollection \<Rightarrow> profile option" where
  "getDefaultProfile uid ps = findOne (\<lambda>p. userId p = uid \<and> isDefault p) ps"

text \<open>\<^verbatim>\<open>Object.assign(profile, updateBody)\<close>: each assignment goes through the setter of
  its path, so the four strings are stored trimmed.\<close>

definition assign :: "profilePatch \<Rightarrow> profile \<Rightarrow> profile" where
  "assign updateBody p =
     p\<lparr>profileName :=
         (case u_profileName updateBody of Some v \<Rightarrow> trim v | None \<Rightarrow> profileName p),
       displayName :=
         (case u_displayName updateBody of Some v \<Rightarrow> trim v | None \<Rightarrow> displayName p),
       bio := (case u_bio updateBody of Some v \<Rightarrow> trim v | None \<Rightarrow> bio p),
       avatar := (case u_avatar updateBody of Some v \<Rightarrow> Some (trim v) | None \<Rightarrow> avatar p),
       profileType := (case u_profileType updateBody of Some v \<Rightarrow> v | None \<Rightarrow> profileType p),
       status := (case u_status updateBody of Some v \<Rightarrow> v | None \<Rightarrow> status p),
       isActive := (case u_isActive updateBody of Some v \<Rightarrow> v | None \<Rightarrow> isActive p),
       isDefault := (case u_isDefault updateBody of Some v \<Rightarrow> v | None \<Rightarrow> isDefault p)\<rparr>"

text \<open>The guard \<^verbatim>\<open>updateBody.profileName && ...\<close> tests the name as it was passed: it skips
  the name check for a missing and for an empty name.\<close>

definition updateProfileById ::
  "(string \<Rightarrow> bool) \<Rightarrow> objectId \<Rightarrow> profilePatch \<Rightarrow> profileCollection \<Rightarrow>
   (error + profile) \<times> profileCollection" where
  "updateProfileById isURL profileId updateBody ps =
     (case getProfileById profileId ps of
        None \<Rightarrow> (Inl (NOT_FOUND ''Profile not found''), ps)
      | Some profile \<Rightarrow>
          if (case u_profileName updateBody of
                Some name \<Rightarrow> name \<noteq> [] \<and> isProfileNameTaken name (userId profile) (Some profileId) ps
              | None \<Rightarrow> False)
          then (Inl (BAD_REQUEST ''Profile name already exists for this user''), ps)
          else saveProfile isURL (Some profile) (assign updateBody profile) ps)"

text \<open>\<^verbatim>\<open>updateMany\<close> and \<^verbatim>\<open>findByIdAndUpdate\<close> are queries: they run no save hook. The
  result is what \<^verbatim>\<open>Profile.findById\<close> returns at the end.\<close>

definition setDefaultProfile ::
  "objectId \<Rightarrow> objectId \<Rightarrow> profileCollection \<Rightarrow> (error + profile option) \<times> profileCollection" where
  "setDefaultProfile uid profileId ps =
     (case findOne (\<lambda>p. p_id p = profileId \<and> userId p = uid) ps of
        None \<Rightarrow> (Inl (NOT_FOUND ''Profile not found''), ps)
      | Some profile \<Rightarrow>
          (let ps1 = updateMany (\<lambda>p. userId p = uid \<and> p_id p \<noteq> profileId)
                       (\<lambda>p. p\<lparr>isDefault := False\<rparr>) ps;
               ps2 = updateOne (\<lambda>p. p_id p = profileId) (\<lambda>p. p\<lparr>isDefault := True\<rparr>) ps1
           in (Inr (getProfileById profileId ps2), ps2)))"

definition deleteProfileById ::
  "(string \<Rightarrow> bool) \<Rightarrow> objectId \<Rightarrow> profileCollection \<Rightarrow>
   (error + profile) \<times> profileCollection" where
  "deleteProfileById isURL profileId ps =
     (case getProfileById profileId ps of
        None \<Rightarrow> (Inl (NOT_FOUND ''Profile not found''), ps)
      | Some profile \<Rightarrow>
          (let promoted =
                 (if isDefault profile then
                    (case findOne (\<lambda>p. userId p = userId profile \<and> p_id p \<noteq> profileId) ps of
                       Some otherProfile \<Rightarrow>
                         saveProfile isURL (Some otherProfile)
                           (otherProfile\<lparr>isDefault := True\<rparr>) ps
                     | None \<Rightarrow> (Inr profile, ps))
                  else (Inr profile, ps))
           in case fst promoted of
                Inl e \<Rightarrow> (Inl e, snd promoted)
              | Inr saved \<Rightarrow> (Inr profile, deleteOne (\<lambda>p. p_id p = profileId) (snd promoted))))"

subsection \<open>The controller of the default-profile route (profile.controller.js)\<close>

definition getDefaultProfileController ::
  "objectId \<Rightarrow> profileCollection \<Rightarrow> error + profile" where
  "getDefaultProfileController uid ps =
     (case getDefaultProfile uid ps of
        None \<Rightarrow> Inl (NOT_FOUND ''No default profile found'')
      | Some profile \<Rightarrow> Inr profile)"

subsection \<open>Sequences of profile operations and the default invariant\<close>

datatype profileOp =
    CreateProfile profileBody
  | UpdateProfileById objectId profilePatch
  | SetDefaultProfile objectId objectId
  | DeleteProfileById objectId

fun applyProfileOp ::
  "(string \<Rightarrow> bool) \<Rightarrow> profileOp \<Rightarrow> profileCollection \<Rightarrow> profileCollection" where
  "applyProfileOp isURL (CreateProfile body) ps = snd (createProfile isURL body ps)"
| "applyProfileOp isURL (UpdateProfileById ident patch) ps =
     snd (updateProfileById isURL ident patch ps)"
| "applyProfileOp isURL (SetDefaultProfile uid ident) ps = snd (setDefaultProfile uid ident ps)"
| "applyProfileOp isURL (DeleteProfileById ident) ps = snd (deleteProfileById isURL ident ps)"

fun applyProfileOps ::
  "(string \<Rightarrow> bool) \<Rightarrow> profileOp list \<Rightarrow> profileCollection \<Rightarrow> profileCollection" where
  "applyProfileOps isURL [] ps = ps"
| "applyProfileOps isURL (oper # rest) ps =
     applyProfileOps isURL rest (applyProfileOp isURL oper ps)"

definition defaultCount :: "objectId \<Rightarrow> profileCollection \<Rightarrow> nat" where
  "defaultCount uid ps = length (filter (\<lambda>p. userId p = uid \<and> isDefault p) ps)"

text \<open>Every account that has a profile has exactly one default profile.\<close>

definition oneDefaultPerAccount :: "profileCollection \<Rightarrow> bool" where
  "oneDefaultPerAccount ps = (\<forall>p \<in> set ps. defaultCount (userId p) ps = 1)"

text \<open>An operation that does not clear a default flag: every operation except an update
  whose body carries \<^verbatim>\<open>isDefault: false\<close>.\<close>

fun keepsDefaultFlag :: "profileOp \<Rightarrow> bool" where
  "keepsDefaultFlag (UpdateProfileById ident patch) = (u_isDefault patch \<noteq> Some False)"
| "keepsDefaultFlag _ = True"

text \<open>What the store guarantees of a collection written through the model: \<^verbatim>\<open>_id\<close> is a
  key, and every stored document passes the schema validation.\<close>

definition wellFormed :: "(string \<Rightarrow> bool) \<Rightarrow> profileCollection \<Rightarrow> bool" where
  "wellFormed isURL ps =
     (distinct (map p_id ps) \<and> (\<forall>p \<in> set ps. validateProfile isURL p = None))"

section \<open>Account creation (user.service.js)\<close>

text \<open>
  Of a user document only the fields that \<^verbatim>\<open>createUser\<close> reads are kept. The schema
  validation of \<^verbatim>\<open>User.create\<close> depends on the \<^verbatim>\<open>validator\<close> package and on the current
  date; it is the parameter \<open>schemaOk\<close>.
\<close>

record userBody =
  ub_name :: string
  ub_username :: string
  ub_email :: string

record user =
  user_id :: objectId
  user_name :: string
  user_username :: string
  user_email :: string

record database =
  users :: "user list"
  profiles :: profileCollection

text \<open>
  \<^verbatim>\<open>email\<close> and \<^verbatim>\<open>username\<close> have the setters \<^verbatim>\<open>trim\<close> and \<^verbatim>\<open>lowercase\<close>, and \<^verbatim>\<open>name\<close>
  has \<^verbatim>\<open>trim\<close>: the filter of a query is cast with them, and a document stores the
  values they return. (The two setters commute.)
\<close>

definition isEmailTaken :: "string \<Rightarrow> user list \<Rightarrow> bool" where
  "isEmailTaken email us =
     (find (\<lambda>u. user_email u = trim (toLowerCase email)) us \<noteq> None)"

definition isUsernameTaken :: "string \<Rightarrow> user list \<Rightarrow> bool" where
  "isUsernameTaken username us =
     (find (\<lambda>u. user_username u = trim (toLowerCase username)) us \<noteq> None)"

text \<open>The document \<^verbatim>\<open>User.create\<close> builds: the fields of the body, passed through their
  setters, and a new \<^verbatim>\<open>_id\<close>.\<close>

definition newUser :: "userBody \<Rightarrow> user list \<Rightarrow> user" where
  "newUser userBody us =
     \<lparr>user_id = Suc (fold max (map user_id us) 0),
      user_name = trim (ub_name userBody),
      user_username = trim (toLowerCase (ub_username userBody)),
      user_email = trim (toLowerCase (ub_email userBody))\<rparr>"

definition User_create ::
  "(userBody \<Rightarrow> bool) \<Rightarrow> userBody \<Rightarrow> user list \<Rightarrow> (error + user) \<times> user list" where
  "User_create schemaOk userBody us =
     (if schemaOk userBody then (Inr (newUser userBody us), us @ [newUser userBody us])
      else (Inl (ValidationError ''User validation failed''), us))"

subsection \<open>The generated name of the anonymous profile\<close>

text \<open>The decimal digits of a natural number, as the template literal prints an
  integer. \<open>digitChar\<close> is only ever applied to a number below \<open>10\<close>.\<close>

definition digitChar :: "nat \<Rightarrow> char" where
  "digitChar d = ''0123456789'' ! d"

fun decimal :: "nat \<Rightarrow> string" where
  "decimal n = (if n < 10 then [digitChar n] else decimal (n div 10) @ [digitChar (n mod 10)])"

definition isDigit :: "char \<Rightarrow> bool" where
  "isDigit c = (c \<in> set ''0123456789'')"

text \<open>
  \<^verbatim>\<open>Math.floor(100000 + Math.random() * 900000)\<close>: the argument \<open>r\<close> is the integer part
  of \<^verbatim>\<open>Math.random() * 900000\<close>, a number below \<open>900000\<close> since \<^verbatim>\<open>Math.random()\<close> is
  below \<open>1\<close>.
\<close>

definition generateAnonymousProfileName :: "nat \<Rightarrow> string" where
  "generateAnonymousProfileName r = ''Neswa'' @ decimal (100000 + r)"

subsection \<open>\<^verbatim>\<open>createUser\<close>\<close>

definition publicProfileBody :: "user \<Rightarrow> userBody \<Rightarrow> profileBody" where
  "publicProfileBody u userBody =
     \<lparr>b_userId = user_id u,
      b_profileName = ub_name userBody,
      b_displayName = ub_name userBody,
      b_bio = Some [],
      b_avatar = None,
      b_profileType = Some TypePublic,
      b_status = Some StatusPublic,
      b_isActive = Some True,
      b_isDefault = Some True,
      b_settings = None,
      b_metadata = None\<rparr>"

definition anonymousProfileBody :: "user \<Rightarrow> nat \<Rightarrow> profileBody" where
  "anonymousProfileBody u r =
     \<lparr>b_userId = user_id u,
      b_profileName = generateAnonymousProfileName r,
      b_displayName = ''Anonymous User'',
      b_bio = Some [],
      b_avatar = None,
      b_profileType = Some TypeAnonymous,
      b_status = Some StatusPrivate,
      b_isActive = Some True,
      b_isDefault = Some False,
      b_settings = None,
      b_metadata = None\<rparr>"

text \<open>
  The \<^verbatim>\<open>try\<close> block. \<^verbatim>\<open>profileService.createProfile\<close> is looked up on the service object
  at each call (the unit test replaces it by a function that always rejects), so it is
  the parameter \<open>cp\<close>. The result is the list of bodies \<open>cp\<close> was called with, in call
  order, and the collection left behind. A rejected call leaves the block at once: the
  \<^verbatim>\<open>catch\<close> clause logs the message and raises nothing.
\<close>

type_synonym createProfileFn =
  "profileBody \<Rightarrow> profileCollection \<Rightarrow> (error + profile) \<times> profileCollection"

definition createDefaultProfiles ::
  "createProfileFn \<Rightarrow> user \<Rightarrow> userBody \<Rightarrow> nat \<Rightarrow> profileCollection \<Rightarrow>
   profileBody list \<times> profileCollection" where
  "createDefaultProfiles cp u userBody r ps =
     (let publicBody = publicProfileBody u userBody;
          first = cp publicBody ps
      in case fst first of
           Inl e \<Rightarrow> ([publicBody], snd first)
         | Inr publicProfile \<Rightarrow>
             (let anonymousBody = anonymousProfileBody u r;
                  second = cp anonymousBody (snd first)
              in ([publicBody, anonymousBody], snd second)))"

definition createUserWith ::
  "createProfileFn \<Rightarrow> (userBody \<Rightarrow> bool) \<Rightarrow> nat \<Rightarrow> userBody \<Rightarrow> database \<Rightarrow>
   (error + user) \<times> database" where
  "createUserWith cp schemaOk r userBody db =
     (if isEmailTaken (ub_email userBody) (users db)
        then (Inl (BAD_REQUEST ''Email already taken''), db)
      else if isUsernameTaken (ub_username userBody) (users db)
        then (Inl (BAD_REQUEST ''Username already taken''), db)
      else
        (case User_create schemaOk userBody (users db) of
           (Inl e, us) \<Rightarrow> (Inl e, db)
         | (Inr u, us) \<Rightarrow>
             (Inr u,
              \<lparr>users = us,
               profiles = snd (createDefaultProfiles cp u userBody r (profiles db))\<rparr>)))"

definition createUser ::
  "(string \<Rightarrow> bool) \<Rightarrow> (userBody \<Rightarrow> bool) \<Rightarrow> nat \<Rightarrow> userBody \<Rightarrow> database \<Rightarrow>
   (error + user) \<times> database" where
  "createUser isURL = createUserWith (createProfile isURL)"

section \<open>Sample documents\<close>

text \<open>Two profiles of account \<open>1\<close>, the first one default, and bodies for a further
  profile: they instantiate the theorems below. None of them carries an avatar;
  \<open>sampleIsURL\<close> stands for \<^verbatim>\<open>validator.isURL\<close> in the instances.\<close>

definition sampleIsURL :: "string \<Rightarrow> bool" where
  "sampleIsURL s = (take 7 s = ''http://'' \<or> take 8 s = ''https://'')"

definition profileA :: profile where
  "profileA =
     \<lparr>p_id = 1, userId = 1, profileName = ''first'', displayName = ''First'', bio = [],
      avatar = None, profileType = TypePublic, status = StatusPublic, isActive = True,
      isDefault = True, settings = newSettings None, metadata = None\<rparr>"

definition profileB :: profile where
  "profileB =
     \<lparr>p_id = 2, userId = 1, profileName = ''second'', displayName = ''Second'', bio = [],
      avatar = None, profileType = TypeAnonymous, status = StatusPrivate, isActive = True,
      isDefault = False, settings = newSettings None, metadata = None\<rparr>"

definition unsetDefault :: profilePatch where
  "unsetDefault =
     \<lparr>u_profileName = None, u_displayName = None, u_bio = None, u_avatar = None,
      u_profileType = None, u_status = None, u_isActive = None, u_isDefault = Some False\<rparr>"

text \<open>Two bodies for \<^verbatim>\<open>createUser\<close>, the second with a name of one character, an empty
  database, and a user schema that accepts every body.\<close>

definition bodyAna :: userBody where
  "bodyAna = \<lparr>ub_name = ''Ana'', ub_username = ''ana'', ub_email = ''ana@example.com''\<rparr>"

definition bodyA :: userBody where
  "bodyA = \<lparr>ub_name = ''A'', ub_username = ''ana'', ub_email = ''ana@example.com''\<rparr>"

definition emptyDatabase :: database where
  "emptyDatabase = \<lparr>users = [], profiles = []\<rparr>"

definition acceptAll :: "userBody \<Rightarrow> bool" where
  "acceptAll userBody = True"

definition bodyThird :: profileBody where
  "bodyThird =
     \<lparr>b_userId = 1, b_profileName = ''third'', b_displayName = ''Third'', b_bio = None,
      b_avatar = None, b_profileType = None, b_status = None, b_isActive = None,
      b_isDefault = Some True, b_settings = None, b_metadata = None\<rparr>"

section \<open>Properties of the engagement state\<close>

lemma indexOf_ge_minus1: "- 1 \<le> indexOf xs x"
  by (induction xs) (auto simp: Let_def)

lemma indexOf_eq_minus1_iff: "indexOf xs x = - 1 \<longleftrightarrow> x \<notin> set xs"
proof (induction xs)
  case Nil
  show ?case by simp
next
  case (Cons y ys)
  have "- 1 \<le> indexOf ys x" by (rule indexOf_ge_minus1)
  with Cons show ?case by (auto simp: Let_def)
qed

lemma splice1_indexOf: "x \<in> set xs \<Longrightarrow> splice1 xs (indexOf xs x) = remove1 x xs"
proof (induction xs)
  case Nil
  then show ?case by simp
next
  case (Cons y ys)
  show ?case
  proof (cases "y = x")
    case True
    then show ?thesis by (simp add: splice1_def)
  next
    case False
    with Cons.prems have mem: "x \<in> set ys" by simp
    then have ne: "indexOf ys x \<noteq> - 1" by (simp add: indexOf_eq_minus1_iff)
    have "- 1 \<le> indexOf ys x" by (rule indexOf_ge_minus1)
    with ne have nonneg: "0 \<le> indexOf ys x" by linarith
    then have "nat (indexOf ys x + 1) = Suc (nat (indexOf ys x))" by linarith
    with False ne Cons.IH [OF mem] show ?thesis
      by (simp add: splice1_def Let_def)
  qed
qed

lemmas method_defs = addLike_def removeLike_def addDislike_def removeDislike_def
  addSave_def removeSave_def addShare_def

lemmas array_simps = array_includes_def push_def indexOf_eq_minus1_iff splice1_indexOf Let_def

lemma applyOp_duplicateFree: "duplicateFree c \<Longrightarrow> duplicateFree (applyOp oper p c)"
  by (cases oper) (auto simp: duplicateFree_def method_defs array_simps)

lemma applyOps_duplicateFree: "duplicateFree c \<Longrightarrow> duplicateFree (applyOps ops c)"
  by (induction ops arbitrary: c) (auto simp: applyOp_duplicateFree)

lemma length_remove1_int: "x \<in> set xs \<Longrightarrow> int (length (remove1 x xs)) = int (length xs) - 1"
proof -
  assume mem: "x \<in> set xs"
  then have "0 < length xs" by (rule length_pos_if_in_set)
  then have "int (length xs - 1) = int (length xs) - 1" by linarith
  with mem show ?thesis by (simp add: length_remove1)
qed

lemma applyOp_countersMatch: "countersMatch c \<Longrightarrow> countersMatch (applyOp oper p c)"
  by (cases oper) (auto simp: countersMatch_def method_defs array_simps length_remove1_int)

lemma applyOp_exclusive:
  "mutuallyExclusive c \<Longrightarrow> distinct (likedBy c) \<Longrightarrow> distinct (dislikedBy c) \<Longrightarrow>
   mutuallyExclusive (applyOp oper p c)"
  by (cases oper) (auto simp: mutuallyExclusive_def method_defs array_simps dest: notin_set_remove1)

lemma addLike_idem: "addLike p (addLike p c) = addLike p c"
  by (auto simp: method_defs array_simps)

lemma addSave_idem: "addSave p (addSave p c) = addSave p c"
  by (auto simp: method_defs array_simps)

lemma applyOp_alreadyDone: "alreadyDone oper p c \<Longrightarrow> applyOp oper p c = c"
  by (cases oper) (auto simp: method_defs array_simps)

lemma add_then_alreadyDone: "isAdd oper \<Longrightarrow> alreadyDone oper p (applyOp oper p c)"
  by (cases oper) (auto simp: method_defs array_simps)

lemmas service_defs = likeQuestion_def unlikeQuestion_def dislikeQuestion_def
  removeDislikeQuestion_def saveQuestion_def unsaveQuestion_def shareQuestion_def

lemma engage_None:
  "qs questionId = None \<Longrightarrow>
   engage oper questionId p qs = (Inl (NOT_FOUND ''Question not found''), qs)"
  by (cases oper) (simp_all add: service_defs getQuestionById_def)

lemma engage_Some:
  "qs questionId = Some q \<Longrightarrow>
   engage oper questionId p qs = (Inr (applyOp oper p q), qs(questionId \<mapsto> applyOp oper p q))"
  by (cases oper) (simp_all add: service_defs getQuestionById_def saveQuestionDoc_def)


lemma applyOp_distinct_reactions:
  "distinct (likedBy c) \<and> distinct (dislikedBy c) \<Longrightarrow>
   distinct (likedBy (applyOp oper p c)) \<and> distinct (dislikedBy (applyOp oper p c))"
  by (cases oper) (auto simp: method_defs array_simps)

lemma applyOps_invariant:
  "engagementInvariant c \<and> distinct (likedBy c) \<and> distinct (dislikedBy c) \<Longrightarrow>
   engagementInvariant (applyOps ops c) \<and>
   distinct (likedBy (applyOps ops c)) \<and> distinct (dislikedBy (applyOps ops c))"
proof (induction ops arbitrary: c)
  case Nil
  then show ?case by simp
next
  case (Cons a ops)
  obtain oper p where a: "a = (oper, p)" by (cases a)
  from Cons.prems have "engagementInvariant (applyOp oper p c)"
    by (simp add: engagementInvariant_def applyOp_exclusive applyOp_countersMatch)
  moreover from Cons.prems
  have "distinct (likedBy (applyOp oper p c)) \<and> distinct (dislikedBy (applyOp oper p c))"
    by (simp add: applyOp_distinct_reactions)
  ultimately show ?case using Cons.IH [of "applyOp oper p c"] a by simp
qed

text \<open>
  C9. Liking twice is liking once, and saving twice is saving once: the second call of
  \<^verbatim>\<open>addLike\<close> (of \<^verbatim>\<open>addSave\<close>) with the same profile returns the document unchanged,
  membership arrays and counters alike; through the service, the second call of
  \<^verbatim>\<open>likeQuestion\<close> (of \<^verbatim>\<open>saveQuestion\<close>) returns what the first returned and leaves the
  collection as the first left it.
\<close>

theorem like_and_save_idempotent:
  "addLike p (addLike p c) = addLike p c \<and>
   addSave p (addSave p c) = addSave p c \<and>
   likeQuestion q p (snd (likeQuestion q p qs)) = likeQuestion q p qs \<and>
   saveQuestion q p (snd (saveQuestion q p qs)) = saveQuestion q p qs"
proof -
  have "likeQuestion q p (snd (likeQuestion q p qs)) = likeQuestion q p qs"
    by (cases "qs q")
       (simp_all add: likeQuestion_def getQuestionById_def saveQuestionDoc_def addLike_idem)
  moreover have "saveQuestion q p (snd (saveQuestion q p qs)) = saveQuestion q p qs"
    by (cases "qs q")
       (simp_all add: saveQuestion_def getQuestionById_def saveQuestionDoc_def addSave_idem)
  ultimately show ?thesis by (simp add: addLike_idem addSave_idem)
qed

theorem like_and_save_idempotent_witness:
  "addLike 7 (addLike 7 newContent) = addLike 7 newContent \<and>
   likedBy (addLike 7 (addLike 7 newContent)) = [7] \<and>
   likeCount (addLike 7 (addLike 7 newContent)) = 1"
  using like_and_save_idempotent [of 7 newContent 1 Map.empty]
  by (simp add: addLike_def newContent_def array_includes_def push_def)

text \<open>
  C10. No profile occurs twice in \<^verbatim>\<open>likedBy\<close>, \<^verbatim>\<open>dislikedBy\<close>, \<^verbatim>\<open>savedBy\<close> or \<^verbatim>\<open>sharedBy\<close>:
  a new document has empty arrays, every engagement operation and every sequence of them
  keeps the four arrays free of duplicates, and an add operation whose profile is already
  a member changes nothing.
\<close>

theorem membership_arrays_duplicate_free:
  "duplicateFree newContent \<and>
   (duplicateFree c \<longrightarrow> duplicateFree (applyOp oper p c)) \<and>
   (duplicateFree c \<longrightarrow> duplicateFree (applyOps ops c)) \<and>
   duplicateFree (applyOps ops newContent) \<and>
   (isAdd oper \<and> alreadyDone oper p c \<longrightarrow> applyOp oper p c = c)"
proof -
  have new: "duplicateFree newContent" by (simp add: duplicateFree_def newContent_def)
  then have "duplicateFree (applyOps ops newContent)" by (rule applyOps_duplicateFree)
  with new show ?thesis
    by (simp add: applyOp_duplicateFree applyOps_duplicateFree applyOp_alreadyDone)
qed

theorem membership_arrays_duplicate_free_witness:
  "duplicateFree (newContent\<lparr>likedBy := [3], likeCount := 1\<rparr>) \<and>
   duplicateFree (applyOps [(AddLike, 3), (AddDislike, 3), (AddSave, 3), (AddSave, 3)]
                    (newContent\<lparr>likedBy := [3], likeCount := 1\<rparr>)) \<and>
   applyOp AddLike 3 (newContent\<lparr>likedBy := [3], likeCount := 1\<rparr>) =
     newContent\<lparr>likedBy := [3], likeCount := 1\<rparr>"
proof -
  have h: "duplicateFree (newContent\<lparr>likedBy := [3], likeCount := 1\<rparr>)"
    by (simp add: duplicateFree_def newContent_def)
  have a: "isAdd AddLike \<and> alreadyDone AddLike 3 (newContent\<lparr>likedBy := [3], likeCount := 1\<rparr>)"
    by (simp add: array_includes_def)
  from h a membership_arrays_duplicate_free
    [of "newContent\<lparr>likedBy := [3], likeCount := 1\<rparr>" AddLike 3
        "[(AddLike, 3), (AddDislike, 3), (AddSave, 3), (AddSave, 3)]"]
  show ?thesis by blast
qed

text \<open>
  C6. An engagement operation of the question service fails exactly when the question
  does not exist, and then with \<^verbatim>\<open>NOT_FOUND\<close> and an unchanged collection. When the
  question exists the operation returns the document its schema method computes and
  stores it; an add whose profile is already a member and a remove whose profile is not a
  member return the stored document and leave the collection unchanged; an add repeated
  returns what the first call returned and changes nothing more.
\<close>

theorem engagement_fails_only_when_missing:
  "((\<exists>e. fst (engage oper q p qs) = Inl e) \<longleftrightarrow> qs q = None) \<and>
   (qs q = None \<longrightarrow> engage oper q p qs = (Inl (NOT_FOUND ''Question not found''), qs)) \<and>
   (\<forall>c. qs q = Some c \<longrightarrow>
        engage oper q p qs = (Inr (applyOp oper p c), qs(q \<mapsto> applyOp oper p c))) \<and>
   (\<forall>c. qs q = Some c \<and> alreadyDone oper p c \<longrightarrow> engage oper q p qs = (Inr c, qs)) \<and>
   (isAdd oper \<longrightarrow> engage oper q p (snd (engage oper q p qs)) = engage oper q p qs)"
proof (cases "qs q")
  case None
  then show ?thesis by (simp add: engage_None)
next
  case (Some c)
  have again: "isAdd oper \<Longrightarrow> applyOp oper p (applyOp oper p c) = applyOp oper p c"
    by (simp add: applyOp_alreadyDone add_then_alreadyDone)
  have same: "alreadyDone oper p c \<Longrightarrow> qs(q \<mapsto> applyOp oper p c) = qs"
    using Some by (simp add: applyOp_alreadyDone map_upd_triv)
  have twice: "isAdd oper \<Longrightarrow>
      engage oper q p (qs(q \<mapsto> applyOp oper p c)) =
      (Inr (applyOp oper p c), qs(q \<mapsto> applyOp oper p c))"
    using engage_Some [of "qs(q \<mapsto> applyOp oper p c)" q "applyOp oper p c" oper p] again
    by simp
  from Some same twice show ?thesis
    by (simp add: engage_Some applyOp_alreadyDone)
qed

theorem engagement_fails_only_when_missing_witness:
  "engage RemoveLike 1 7 (Map.empty(1 \<mapsto> newContent)) = (Inr newContent, Map.empty(1 \<mapsto> newContent)) \<and>
   engage AddShare 2 7 (Map.empty(1 \<mapsto> newContent)) =
     (Inl (NOT_FOUND ''Question not found''), Map.empty(1 \<mapsto> newContent))"
proof -
  have a: "(Map.empty(1 \<mapsto> newContent)) (1::nat) = Some newContent \<and> alreadyDone RemoveLike 7 newContent"
    by (simp add: newContent_def array_includes_def)
  have b: "(Map.empty(1 \<mapsto> newContent)) (2::nat) = None" by simp
  from a engagement_fails_only_when_missing [of RemoveLike 1 7 "Map.empty(1 \<mapsto> newContent)"]
  have "engage RemoveLike 1 7 (Map.empty(1 \<mapsto> newContent)) =
        (Inr newContent, Map.empty(1 \<mapsto> newContent))" by blast
  moreover from b engagement_fails_only_when_missing [of AddShare 2 7 "Map.empty(1 \<mapsto> newContent)"]
  have "engage AddShare 2 7 (Map.empty(1 \<mapsto> newContent)) =
     (Inl (NOT_FOUND ''Question not found''), Map.empty(1 \<mapsto> newContent))" by blast
  ultimately show ?thesis by simp
qed

text \<open>
  C2, as stated, fails. The document below has no profile in both \<^verbatim>\<open>likedBy\<close> and
  \<^verbatim>\<open>dislikedBy\<close> and its counters equal the lengths of its arrays, but profile \<open>1\<close>
  occurs twice in \<^verbatim>\<open>dislikedBy\<close>. \<^verbatim>\<open>addLike\<close> pushes the profile on \<^verbatim>\<open>likedBy\<close> and
  \<^verbatim>\<open>splice\<close> removes only the first occurrence from \<^verbatim>\<open>dislikedBy\<close>: the profile ends in
  both arrays.
\<close>

theorem engagement_invariant_counterexample:
  "engagementInvariant
     \<lparr>likeCount = 0, unlikeCount = 2, saveCount = 0, shareCount = 0,
      likedBy = [], dislikedBy = [1, 1], savedBy = [], sharedBy = []\<rparr> \<and>
   \<not> engagementInvariant
       (applyOps [(AddLike, 1)]
          \<lparr>likeCount = 0, unlikeCount = 2, saveCount = 0, shareCount = 0,
           likedBy = [], dislikedBy = [1, 1], savedBy = [], sharedBy = []\<rparr>)"
  by (simp add: engagementInvariant_def mutuallyExclusive_def countersMatch_def addLike_def
        array_includes_def push_def splice1_def Let_def)

text \<open>
  C2, amended. Starting from a document in which no profile is in both \<^verbatim>\<open>likedBy\<close> and
  \<^verbatim>\<open>dislikedBy\<close>, the four counters equal the lengths of their arrays, and neither
  \<^verbatim>\<open>likedBy\<close> nor \<^verbatim>\<open>dislikedBy\<close> holds a profile twice, every sequence of engagement
  operations ends in a document in which no profile is in both arrays and the four
  counters equal the lengths of their arrays.
\<close>

theorem engagement_invariant_preserved:
  "engagementInvariant c \<Longrightarrow> distinct (likedBy c) \<Longrightarrow> distinct (dislikedBy c) \<Longrightarrow>
   engagementInvariant (applyOps ops c)"
  using applyOps_invariant [of c ops] by simp

theorem engagement_invariant_preserved_witness:
  "engagementInvariant newContent \<and> distinct (likedBy newContent) \<and>
   distinct (dislikedBy newContent) \<and>
   engagementInvariant (applyOps [(AddLike, 2), (AddDislike, 2), (AddSave, 2)] newContent)"
proof -
  have a: "engagementInvariant newContent"
    by (simp add: engagementInvariant_def mutuallyExclusive_def countersMatch_def newContent_def)
  have b: "distinct (likedBy newContent)" and c: "distinct (dislikedBy newContent)"
    by (simp_all add: newContent_def)
  from a b c
    engagement_invariant_preserved [OF a b c, of "[(AddLike, 2), (AddDislike, 2), (AddSave, 2)]"]
  show ?thesis by blast
qed

section \<open>Properties of the profile service\<close>

lemma fold_max_ge: "(a::nat) \<le> fold max xs a"
  by (induction xs arbitrary: a) (auto intro: order_trans [OF max.cobounded2])

lemma fold_max_mem: "x \<in> set xs \<Longrightarrow> (x::nat) \<le> fold max xs a"
proof (induction xs arbitrary: a)
  case Nil
  then show ?case by simp
next
  case (Cons y ys)
  show ?case
  proof (cases "x = y")
    case True
    have "max y a \<le> fold max ys (max y a)" by (rule fold_max_ge)
    with True show ?thesis by simp
  next
    case False
    with Cons.prems have "x \<in> set ys" by simp
    then show ?thesis using Cons.IH by simp
  qed
qed

lemma newObjectId_fresh: "p \<in> set ps \<Longrightarrow> p_id p \<noteq> newObjectId ps"
proof -
  assume "p \<in> set ps"
  then have "p_id p \<in> set (map p_id ps)" by simp
  then have "p_id p \<le> fold max (map p_id ps) 0" by (rule fold_max_mem)
  then show ?thesis by (simp add: newObjectId_def)
qed

lemma findOne_None_iff: "findOne f ps = None \<longleftrightarrow> (\<forall>p \<in> set ps. \<not> f p)"
  by (auto simp: findOne_def find_None_iff)

lemma findOne_SomeD: "findOne f ps = Some p \<Longrightarrow> f p \<and> p \<in> set ps"
  by (auto simp: findOne_def find_Some_iff)

lemma findOne_unique:
  "d \<in> set ps \<Longrightarrow> f d \<Longrightarrow> (\<forall>p \<in> set ps. f p \<longrightarrow> p = d) \<Longrightarrow> findOne f ps = Some d"
proof -
  assume d: "d \<in> set ps" "f d" and u: "\<forall>p \<in> set ps. f p \<longrightarrow> p = d"
  from d have "findOne f ps \<noteq> None" by (auto simp: findOne_None_iff)
  then obtain q where q: "findOne f ps = Some q" by auto
  from findOne_SomeD [OF q] u have "q = d" by auto
  with q show ?thesis by simp
qed

text \<open>
  C4. When exactly one profile of the account is marked default, \<^verbatim>\<open>getDefaultProfile\<close>
  returns that profile and the controller sends it; when no profile of the account is
  marked default the service returns nothing and the controller signals \<^verbatim>\<open>NOT_FOUND\<close>.
  The controller signals an error in no other case.
\<close>

theorem getDefault_unique_or_not_found:
  "(d \<in> set ps \<and> userId d = uid \<and> isDefault d \<and>
      (\<forall>p \<in> set ps. userId p = uid \<and> isDefault p \<longrightarrow> p = d)
    \<longrightarrow> getDefaultProfile uid ps = Some d \<and> getDefaultProfileController uid ps = Inr d) \<and>
   ((\<forall>p \<in> set ps. \<not> (userId p = uid \<and> isDefault p))
    \<longrightarrow> getDefaultProfile uid ps = None \<and>
        getDefaultProfileController uid ps = Inl (NOT_FOUND ''No default profile found'')) \<and>
   ((\<exists>e. getDefaultProfileController uid ps = Inl e) \<longleftrightarrow>
      (\<forall>p \<in> set ps. \<not> (userId p = uid \<and> isDefault p)))"
proof (intro conjI impI)
  assume h: "d \<in> set ps \<and> userId d = uid \<and> isDefault d \<and>
      (\<forall>p \<in> set ps. userId p = uid \<and> isDefault p \<longrightarrow> p = d)"
  then have "findOne (\<lambda>p. userId p = uid \<and> isDefault p) ps = Some d"
    by (intro findOne_unique) simp_all
  then show "getDefaultProfile uid ps = Some d" by (simp add: getDefaultProfile_def)
  then show "getDefaultProfileController uid ps = Inr d"
    by (simp add: getDefaultProfileController_def)
next
  assume h: "\<forall>p \<in> set ps. \<not> (userId p = uid \<and> isDefault p)"
  then show "getDefaultProfile uid ps = None"
    by (simp add: getDefaultProfile_def findOne_None_iff)
  then show "getDefaultProfileController uid ps = Inl (NOT_FOUND ''No default profile found'')"
    by (simp add: getDefaultProfileController_def)
next
  have "(\<exists>e. getDefaultProfileController uid ps = Inl e) \<longleftrightarrow> getDefaultProfile uid ps = None"
    by (cases "getDefaultProfile uid ps") (simp_all add: getDefaultProfileController_def)
  also have "\<dots> \<longleftrightarrow> (\<forall>p \<in> set ps. \<not> (userId p = uid \<and> isDefault p))"
    by (simp add: getDefaultProfile_def findOne_None_iff)
  finally show "(\<exists>e. getDefaultProfileController uid ps = Inl e) \<longleftrightarrow>
      (\<forall>p \<in> set ps. \<not> (userId p = uid \<and> isDefault p))" .
qed


lemma trim_Nil: "trim [] = []"
  by (simp add: trim_def)

lemma trim_idem: "trim (trim s) = trim s"
proof -
  let ?xs = "dropWhile isWhitespace s"
  let ?ys = "dropWhile isWhitespace (rev ?xs)"
  have split: "rev ?xs = takeWhile isWhitespace (rev ?xs) @ ?ys" by simp
  have front: "dropWhile isWhitespace (rev ?ys) = rev ?ys"
  proof (cases "?ys = []")
    case True
    have "dropWhile isWhitespace (rev []) = rev ([] :: string)" by simp
    then show ?thesis by (simp only: True)
  next
    case False
    from split have "?xs = rev ?ys @ rev (takeWhile isWhitespace (rev ?xs))"
      by (metis rev_append rev_rev_ident)
    with False have "hd (rev ?ys) = hd ?xs" by (metis hd_append2 rev_is_Nil_conv)
    moreover have "?xs \<noteq> []"
    proof
      assume e: "?xs = []"
      from False show False unfolding e by simp
    qed
    then have "\<not> isWhitespace (hd ?xs)" by (rule hd_dropWhile)
    ultimately show ?thesis by (simp add: dropWhile_eq_self_iff)
  qed
  have "trim (rev ?ys) = rev (dropWhile isWhitespace (rev (rev ?ys)))"
    unfolding trim_def front ..
  also have "\<dots> = rev ?ys" by (simp add: dropWhile_idem)
  finally show ?thesis by (simp add: trim_def)
qed

lemma isProfileNameTaken_None_iff:
  "isProfileNameTaken n u None ps \<longleftrightarrow>
     (\<exists>p \<in> set ps. userId p = u \<and> profileName p = trim n)"
  by (auto simp: isProfileNameTaken_def findOne_None_iff)

lemma bodyPassesValidation_iff:
  "bodyPassesValidation isURL body \<longleftrightarrow>
     2 \<le> length (trim (b_profileName body)) \<and>
     trim (b_displayName body) \<noteq> [] \<and>
     (case b_bio body of Some t \<Rightarrow> length (trim t) \<le> 500 | None \<Rightarrow> True) \<and>
     (case b_avatar body of Some a \<Rightarrow> trim a = [] \<or> isURL (trim a) | None \<Rightarrow> True)"
  by (cases "b_bio body"; cases "b_avatar body")
     (auto simp: bodyPassesValidation_def validateProfile_def newProfile_def)

lemma validate_newProfile:
  "validateProfile isURL (newProfile body x ps) = validateProfile isURL (newProfile body y qs)"
  by (simp add: validateProfile_def newProfile_def)

lemma set_updateMany:
  "q \<in> set (updateMany f g ps) \<Longrightarrow> \<exists>p \<in> set ps. q = p \<or> q = g p"
  by (auto simp: updateMany_def)

lemma preSaveDefault_keeps_name:
  "q \<in> set (preSaveDefault m doc ps) \<Longrightarrow>
   \<exists>p \<in> set ps. userId q = userId p \<and> profileName q = profileName p \<and> p_id q = p_id p"
proof -
  assume "q \<in> set (preSaveDefault m doc ps)"
  then obtain p where p: "p \<in> set ps" and q: "q = p \<or> q = p\<lparr>isDefault := False\<rparr>"
    by (auto simp: preSaveDefault_def updateMany_def split: if_splits)
  from q have "userId q = userId p \<and> profileName q = profileName p \<and> p_id q = p_id p"
    by auto
  with p show ?thesis by blast
qed

lemma preSaveName_free:
  "\<not> (\<exists>p \<in> set ps. userId p = userId doc \<and> profileName p = profileName doc) \<Longrightarrow>
   preSaveName m doc (preSaveDefault m' doc ps) = None"
proof -
  assume free: "\<not> (\<exists>p \<in> set ps. userId p = userId doc \<and> profileName p = profileName doc)"
  have "findOne (\<lambda>p. profileName p = profileName doc \<and> userId p = userId doc \<and>
                      p_id p \<noteq> p_id doc) (preSaveDefault m' doc ps) = None"
    unfolding findOne_None_iff
  proof
    fix q assume "q \<in> set (preSaveDefault m' doc ps)"
    from preSaveDefault_keeps_name [OF this] free
    show "\<not> (profileName q = profileName doc \<and> userId q = userId doc \<and> p_id q \<noteq> p_id doc)"
      by auto
  qed
  then show ?thesis by (simp add: preSaveName_def)
qed

lemma saveProfile_new:
  "validateProfile isURL doc = None \<Longrightarrow>
   \<not> (\<exists>p \<in> set ps. userId p = userId doc \<and> profileName p = profileName doc) \<Longrightarrow>
   saveProfile isURL None doc ps = (Inr doc, preSaveDefault True doc ps @ [doc])"
  by (simp add: saveProfile_def preSaveName_free)

lemma saveProfile_invalid:
  "validateProfile isURL doc = Some e \<Longrightarrow> saveProfile isURL loaded doc ps = (Inl e, ps)"
  by (simp add: saveProfile_def)

lemma createdDoc_fields:
  "userId (createdDoc body ps) = b_userId body"
  "profileName (createdDoc body ps) = trim (b_profileName body)"
  "p_id (createdDoc body ps) = newObjectId ps"
  "isDefault (createdDoc body ps) \<longleftrightarrow>
     (profilesOf (b_userId body) ps = [] \<or> b_isDefault body = Some True)"
  by (simp_all add: createdDoc_def newProfile_def)

lemma createProfile_taken:
  "\<exists>p \<in> set ps. userId p = b_userId body \<and> profileName p = trim (b_profileName body) \<Longrightarrow>
   createProfile isURL body ps = (Inl (BAD_REQUEST ''Profile name already exists for this user''), ps)"
  by (simp add: createProfile_def isProfileNameTaken_None_iff)

lemma createProfile_free:
  "\<not> (\<exists>p \<in> set ps. userId p = b_userId body \<and> profileName p = trim (b_profileName body)) \<Longrightarrow>
   createProfile isURL body ps = saveProfile isURL None (createdDoc body ps) ps"
  by (auto simp: createProfile_def isProfileNameTaken_None_iff createdDoc_def profilesOf_def)

lemma createProfile_valid:
  "\<not> (\<exists>p \<in> set ps. userId p = b_userId body \<and> profileName p = trim (b_profileName body)) \<Longrightarrow>
   bodyPassesValidation isURL body \<Longrightarrow>
   createProfile isURL body ps =
     (Inr (createdDoc body ps), preSaveDefault True (createdDoc body ps) ps @ [createdDoc body ps])"
proof -
  assume free: "\<not> (\<exists>p \<in> set ps. userId p = b_userId body \<and> profileName p = trim (b_profileName body))"
  have same: "validateProfile isURL (createdDoc body ps) = validateProfile isURL (newProfile body False [])"
    unfolding createdDoc_def by (rule validate_newProfile)
  assume "bodyPassesValidation isURL body"
  with same have v: "validateProfile isURL (createdDoc body ps) = None"
    by (simp add: bodyPassesValidation_def)
  from free have "\<not> (\<exists>p \<in> set ps. userId p = userId (createdDoc body ps) \<and>
      profileName p = profileName (createdDoc body ps))"
    by (simp add: createdDoc_fields)
  from saveProfile_new [OF v this] createProfile_free [OF free] show ?thesis by simp
qed

lemma createProfile_invalid:
  "\<not> (\<exists>p \<in> set ps. userId p = b_userId body \<and> profileName p = trim (b_profileName body)) \<Longrightarrow>
   \<not> bodyPassesValidation isURL body \<Longrightarrow>
   \<exists>e. createProfile isURL body ps = (Inl (ValidationError e), ps)"
proof -
  assume free: "\<not> (\<exists>p \<in> set ps. userId p = b_userId body \<and> profileName p = trim (b_profileName body))"
  have same: "validateProfile isURL (createdDoc body ps) = validateProfile isURL (newProfile body False [])"
    unfolding createdDoc_def by (rule validate_newProfile)
  assume "\<not> bodyPassesValidation isURL body"
  with same have "validateProfile isURL (createdDoc body ps) \<noteq> None"
    by (simp add: bodyPassesValidation_def)
  then obtain e where e: "validateProfile isURL (createdDoc body ps) = Some e" by auto
  then obtain m where "e = ValidationError m"
    by (auto simp: validateProfile_def split: if_splits)
  with saveProfile_invalid [OF e] createProfile_free [OF free] show ?thesis by simp
qed

lemma preSaveDefault_new:
  "p_id doc = newObjectId ps \<Longrightarrow>
   preSaveDefault True doc ps =
     (if isDefault doc
      then map (\<lambda>p. if userId p = userId doc then p\<lparr>isDefault := False\<rparr> else p) ps
      else ps)"
  by (auto simp: preSaveDefault_def updateMany_def newObjectId_fresh)


lemma createProfile_Inr:
  "fst (createProfile isURL body ps) = Inr d \<Longrightarrow>
   \<not> (\<exists>p \<in> set ps. userId p = b_userId body \<and> profileName p = trim (b_profileName body)) \<and>
   bodyPassesValidation isURL body \<and> d = createdDoc body ps"
proof -
  assume r: "fst (createProfile isURL body ps) = Inr d"
  have free: "\<not> (\<exists>p \<in> set ps. userId p = b_userId body \<and> profileName p = trim (b_profileName body))"
  proof
    assume "\<exists>p \<in> set ps. userId p = b_userId body \<and> profileName p = trim (b_profileName body)"
    from createProfile_taken [OF this] r show False by simp
  qed
  have valid: "bodyPassesValidation isURL body"
  proof (rule ccontr)
    assume "\<not> bodyPassesValidation isURL body"
    from createProfile_invalid [OF free this] r show False by auto
  qed
  from createProfile_valid [OF free valid] r free valid show ?thesis by simp
qed

lemmas eval_defs = createProfile_def isProfileNameTaken_def findOne_def saveProfile_def
  validateProfile_def preSaveDefault_def preSaveName_def updateMany_def newProfile_def
  newObjectId_def trim_def isWhitespace_def Let_def

text \<open>
  C3, as stated, fails. The account has one profile, marked default. \<^verbatim>\<open>createProfile\<close>
  with \<^verbatim>\<open>isDefault: true\<close> saves a new document whose \<^verbatim>\<open>isDefault\<close> path is modified and
  true, so the first pre-save hook runs \<^verbatim>\<open>updateMany\<close> on the siblings: the stored
  sibling ends with \<^verbatim>\<open>isDefault\<close> false.
\<close>

theorem createProfile_siblings_unchanged_counterexample:
  "snd (createProfile sampleIsURL
     \<lparr>b_userId = 1, b_profileName = ''second'', b_displayName = ''Second'', b_bio = None,
      b_avatar = None, b_profileType = None, b_status = None, b_isActive = None,
      b_isDefault = Some True, b_settings = None, b_metadata = None\<rparr>
     [\<lparr>p_id = 1, userId = 1, profileName = ''first'', displayName = ''First'', bio = [],
       avatar = None, profileType = TypePublic, status = StatusPublic, isActive = True,
       isDefault = True, settings = newSettings None, metadata = None\<rparr>])
   = [\<lparr>p_id = 1, userId = 1, profileName = ''first'', displayName = ''First'', bio = [],
       avatar = None, profileType = TypePublic, status = StatusPublic, isActive = True,
       isDefault = False, settings = newSettings None, metadata = None\<rparr>,
      \<lparr>p_id = 2, userId = 1, profileName = ''second'', displayName = ''Second'', bio = [],
       avatar = None, profileType = TypePublic, status = StatusPublic, isActive = True,
       isDefault = True, settings = newSettings None, metadata = None\<rparr>]"
  by (simp add: eval_defs)

text \<open>
  C3, amended. A successful \<^verbatim>\<open>createProfile\<close> returns a default profile exactly when the
  account had no profile or the body asked for \<^verbatim>\<open>isDefault: true\<close>. When the created
  profile is default, every other profile of that account ends with \<^verbatim>\<open>isDefault\<close> false
  and the profiles of other accounts are unchanged; when it is not, every stored profile
  is unchanged. In both cases the new document is appended.
\<close>

theorem createProfile_default_demotes_siblings:
  "fst (createProfile isURL body ps) = Inr d \<longrightarrow>
     (isDefault d \<longleftrightarrow> (profilesOf (b_userId body) ps = [] \<or> b_isDefault body = Some True)) \<and>
     (isDefault d \<longrightarrow>
        snd (createProfile isURL body ps) =
          map (\<lambda>p. if userId p = b_userId body then p\<lparr>isDefault := False\<rparr> else p) ps @ [d]) \<and>
     (\<not> isDefault d \<longrightarrow> snd (createProfile isURL body ps) = ps @ [d])"
proof
  assume r: "fst (createProfile isURL body ps) = Inr d"
  from createProfile_Inr [OF r]
  have free: "\<not> (\<exists>p \<in> set ps. userId p = b_userId body \<and> profileName p = trim (b_profileName body))"
    and valid: "bodyPassesValidation isURL body" and d: "d = createdDoc body ps" by simp_all
  have s: "snd (createProfile isURL body ps) = preSaveDefault True d ps @ [d]"
    using createProfile_valid [OF free valid] d by simp
  have i: "p_id d = newObjectId ps" and u: "userId d = b_userId body"
    using d by (simp_all add: createdDoc_fields)
  have pd: "preSaveDefault True d ps =
      (if isDefault d
       then map (\<lambda>p. if userId p = b_userId body then p\<lparr>isDefault := False\<rparr> else p) ps
       else ps)"
    using preSaveDefault_new [OF i] u by simp
  have dflt: "isDefault d \<longleftrightarrow>
      (profilesOf (b_userId body) ps = [] \<or> b_isDefault body = Some True)"
    using d by (simp add: createdDoc_fields)
  show "(isDefault d \<longleftrightarrow> (profilesOf (b_userId body) ps = [] \<or> b_isDefault body = Some True)) \<and>
     (isDefault d \<longrightarrow>
        snd (createProfile isURL body ps) =
          map (\<lambda>p. if userId p = b_userId body then p\<lparr>isDefault := False\<rparr> else p) ps @ [d]) \<and>
     (\<not> isDefault d \<longrightarrow> snd (createProfile isURL body ps) = ps @ [d])"
    using s pd dflt by simp
qed

text \<open>
  C7, as stated, fails. No profile exists at all, so no profile has the same account and
  name, yet \<^verbatim>\<open>createProfile\<close> does not succeed: the schema's validator of \<^verbatim>\<open>profileName\<close>
  rejects a name of one character (whatever \<^verbatim>\<open>validator.isURL\<close> does: the body has no
  avatar).
\<close>

theorem createProfile_conflict_counterexample:
  "createProfile sampleIsURL
     \<lparr>b_userId = 1, b_profileName = ''A'', b_displayName = ''Ana'', b_bio = None,
      b_avatar = None, b_profileType = None, b_status = None, b_isActive = None,
      b_isDefault = None, b_settings = None, b_metadata = None\<rparr> []
   = (Inl (ValidationError ''Profile name must be at least 2 characters long''), [])"
  by (simp add: eval_defs)

text \<open>
  C7, amended. Names are compared after trimming. \<^verbatim>\<open>createProfile\<close> signals
  \<^verbatim>\<open>BAD_REQUEST\<close> (the conflict) exactly when a profile of the same account is stored
  under the trimmed name of the body, and then changes nothing. Otherwise it succeeds
  when the body passes the schema validation, storing a profile of that account under
  the trimmed name, and fails with a validation error, changing nothing, when it does
  not. The body passes the validation exactly when, after trimming, its name has at least
  two characters, its display name is not empty, its bio (if any) has at most 500
  characters and its avatar (if any) is empty or accepted by \<^verbatim>\<open>validator.isURL\<close>. Two
  valid bodies with the same trimmed name under two different accounts both succeed, one
  after the other; a second body with the same trimmed name under the same account is
  rejected after the first succeeded. All of this holds for every \<open>isURL\<close>.
\<close>

theorem createProfile_conflict_iff_name_taken:
  "(fst (createProfile isURL body ps) = Inl (BAD_REQUEST ''Profile name already exists for this user'')
      \<longleftrightarrow> (\<exists>p \<in> set ps. userId p = b_userId body \<and> profileName p = trim (b_profileName body))) \<and>
   ((\<exists>p \<in> set ps. userId p = b_userId body \<and> profileName p = trim (b_profileName body))
      \<longrightarrow> snd (createProfile isURL body ps) = ps) \<and>
   (\<not> (\<exists>p \<in> set ps. userId p = b_userId body \<and> profileName p = trim (b_profileName body)) \<and>
    bodyPassesValidation isURL body
      \<longrightarrow> (\<exists>d. fst (createProfile isURL body ps) = Inr d \<and> userId d = b_userId body \<and>
               profileName d = trim (b_profileName body) \<and> d \<in> set (snd (createProfile isURL body ps)))) \<and>
   (\<not> (\<exists>p \<in> set ps. userId p = b_userId body \<and> profileName p = trim (b_profileName body)) \<and>
    \<not> bodyPassesValidation isURL body
      \<longrightarrow> (\<exists>m. createProfile isURL body ps = (Inl (ValidationError m), ps))) \<and>
   (bodyPassesValidation isURL body \<and> bodyPassesValidation isURL body2 \<and>
    trim (b_profileName body2) = trim (b_profileName body) \<and> b_userId body2 \<noteq> b_userId body \<and>
    \<not> (\<exists>p \<in> set ps. profileName p = trim (b_profileName body) \<and>
                      (userId p = b_userId body \<or> userId p = b_userId body2))
      \<longrightarrow> (\<exists>d d2. fst (createProfile isURL body ps) = Inr d \<and>
                  fst (createProfile isURL body2 (snd (createProfile isURL body ps))) = Inr d2)) \<and>
   ((\<exists>d. fst (createProfile isURL body ps) = Inr d) \<and>
    trim (b_profileName body2) = trim (b_profileName body) \<and> b_userId body2 = b_userId body
      \<longrightarrow> fst (createProfile isURL body2 (snd (createProfile isURL body ps))) =
            Inl (BAD_REQUEST ''Profile name already exists for this user'')) \<and>
   (bodyPassesValidation isURL body \<longleftrightarrow>
      2 \<le> length (trim (b_profileName body)) \<and>
      trim (b_displayName body) \<noteq> [] \<and>
      (case b_bio body of Some t \<Rightarrow> length (trim t) \<le> 500 | None \<Rightarrow> True) \<and>
      (case b_avatar body of Some a \<Rightarrow> trim a = [] \<or> isURL (trim a) | None \<Rightarrow> True))"
proof -
  let ?taken = "\<exists>p \<in> set ps. userId p = b_userId body \<and> profileName p = trim (b_profileName body)"
  let ?d = "createdDoc body ps"
  let ?ps' = "preSaveDefault True ?d ps @ [?d]"
  have c1: "fst (createProfile isURL body ps) = Inl (BAD_REQUEST ''Profile name already exists for this user'')
      \<longleftrightarrow> ?taken"
  proof (cases ?taken)
    case True
    from createProfile_taken [OF True] True show ?thesis by simp
  next
    case False
    show ?thesis
    proof (cases "bodyPassesValidation isURL body")
      case True
      from createProfile_valid [OF False True] False show ?thesis by simp
    next
      case nv: False
      from createProfile_invalid [OF False nv] False show ?thesis by auto
    qed
  qed
  have c2: "?taken \<longrightarrow> snd (createProfile isURL body ps) = ps"
    using createProfile_taken [of ps body] by auto
  have c3: "\<not> ?taken \<and> bodyPassesValidation isURL body
      \<longrightarrow> (\<exists>d. fst (createProfile isURL body ps) = Inr d \<and> userId d = b_userId body \<and>
               profileName d = trim (b_profileName body) \<and> d \<in> set (snd (createProfile isURL body ps)))"
  proof
    assume h: "\<not> ?taken \<and> bodyPassesValidation isURL body"
    then have "createProfile isURL body ps = (Inr ?d, ?ps')"
      using createProfile_valid [of ps body] by blast
    then show "\<exists>d. fst (createProfile isURL body ps) = Inr d \<and> userId d = b_userId body \<and>
               profileName d = trim (b_profileName body) \<and> d \<in> set (snd (createProfile isURL body ps))"
      by (simp add: createdDoc_fields)
  qed
  have c4: "\<not> ?taken \<and> \<not> bodyPassesValidation isURL body
      \<longrightarrow> (\<exists>m. createProfile isURL body ps = (Inl (ValidationError m), ps))"
    using createProfile_invalid [of ps body] by blast
  have c5: "bodyPassesValidation isURL body \<and> bodyPassesValidation isURL body2 \<and>
    trim (b_profileName body2) = trim (b_profileName body) \<and> b_userId body2 \<noteq> b_userId body \<and>
    \<not> (\<exists>p \<in> set ps. profileName p = trim (b_profileName body) \<and>
                      (userId p = b_userId body \<or> userId p = b_userId body2))
      \<longrightarrow> (\<exists>d d2. fst (createProfile isURL body ps) = Inr d \<and>
                  fst (createProfile isURL body2 (snd (createProfile isURL body ps))) = Inr d2)"
  proof
    assume h: "bodyPassesValidation isURL body \<and> bodyPassesValidation isURL body2 \<and>
      trim (b_profileName body2) = trim (b_profileName body) \<and> b_userId body2 \<noteq> b_userId body \<and>
      \<not> (\<exists>p \<in> set ps. profileName p = trim (b_profileName body) \<and>
                      (userId p = b_userId body \<or> userId p = b_userId body2))"
    then have free: "\<not> ?taken" by blast
    with h have first: "createProfile isURL body ps = (Inr ?d, ?ps')"
      using createProfile_valid [of ps body] by blast
    have free2: "\<not> (\<exists>q \<in> set ?ps'. userId q = b_userId body2 \<and> profileName q = trim (b_profileName body2))"
    proof
      assume "\<exists>q \<in> set ?ps'. userId q = b_userId body2 \<and> profileName q = trim (b_profileName body2)"
      then obtain q where q: "q \<in> set ?ps'" "userId q = b_userId body2"
        "profileName q = trim (b_profileName body2)" by blast
      show False
      proof (cases "q = ?d")
        case True
        with q h show False by (simp add: createdDoc_fields)
      next
        case False
        with q have "q \<in> set (preSaveDefault True ?d ps)" by simp
        from preSaveDefault_keeps_name [OF this] q h show False by auto
      qed
    qed
    from h have v2: "bodyPassesValidation isURL body2" by simp
    from createProfile_valid [OF free2 v2] first
    show "\<exists>d d2. fst (createProfile isURL body ps) = Inr d \<and>
                  fst (createProfile isURL body2 (snd (createProfile isURL body ps))) = Inr d2"
      by simp
  qed
  have c6: "(\<exists>d. fst (createProfile isURL body ps) = Inr d) \<and>
    trim (b_profileName body2) = trim (b_profileName body) \<and> b_userId body2 = b_userId body
      \<longrightarrow> fst (createProfile isURL body2 (snd (createProfile isURL body ps))) =
            Inl (BAD_REQUEST ''Profile name already exists for this user'')"
  proof
    assume h: "(\<exists>d. fst (createProfile isURL body ps) = Inr d) \<and>
      trim (b_profileName body2) = trim (b_profileName body) \<and> b_userId body2 = b_userId body"
    then obtain d where d: "fst (createProfile isURL body ps) = Inr d" by blast
    from createProfile_Inr [OF d]
    have "createProfile isURL body ps = (Inr ?d, ?ps')"
      using createProfile_valid [of ps body] by blast
    then have "?d \<in> set (snd (createProfile isURL body ps))" by simp
    with h have "\<exists>p \<in> set (snd (createProfile isURL body ps)).
        userId p = b_userId body2 \<and> profileName p = trim (b_profileName body2)"
      by (intro bexI [of _ ?d]) (simp_all add: createdDoc_fields)
    from createProfile_taken [OF this]
    show "fst (createProfile isURL body2 (snd (createProfile isURL body ps))) =
            Inl (BAD_REQUEST ''Profile name already exists for this user'')" by simp
  qed
  have c7: "bodyPassesValidation isURL body \<longleftrightarrow>
      2 \<le> length (trim (b_profileName body)) \<and>
      trim (b_displayName body) \<noteq> [] \<and>
      (case b_bio body of Some t \<Rightarrow> length (trim t) \<le> 500 | None \<Rightarrow> True) \<and>
      (case b_avatar body of Some a \<Rightarrow> trim a = [] \<or> isURL (trim a) | None \<Rightarrow> True)"
    by (rule bodyPassesValidation_iff)
  from c1 c2 c3 c4 c5 c6 c7 show ?thesis by blast
qed

lemma distinct_map_head: "distinct (map f (a # xs)) \<Longrightarrow> x \<in> set xs \<Longrightarrow> f x \<noteq> f a"
proof
  assume d: "distinct (map f (a # xs))" and x: "x \<in> set xs" and e: "f x = f a"
  from x have "f x \<in> f ` set xs" by (rule imageI)
  with e have "f a \<in> f ` set xs" by simp
  with d show False by simp
qed

lemma updateOne_map:
  "distinct (map p_id ps) \<Longrightarrow>
   updateOne (\<lambda>p. p_id p = i) g ps = map (\<lambda>p. if p_id p = i then g p else p) ps"
proof (induction ps)
  case Nil
  show ?case by simp
next
  case (Cons a ps)
  show ?case
  proof (cases "p_id a = i")
    case True
    with distinct_map_head [OF Cons.prems(1)] have "\<forall>p \<in> set ps. p_id p \<noteq> i" by metis
    then have "map (\<lambda>p. if p_id p = i then g p else p) ps = ps" by (simp add: map_idI)
    with True show ?thesis by simp
  next
    case False
    with Cons show ?thesis by simp
  qed
qed

lemma deleteOne_filter:
  "distinct (map p_id ps) \<Longrightarrow>
   deleteOne (\<lambda>p. p_id p = i) ps = filter (\<lambda>p. p_id p \<noteq> i) ps"
proof (induction ps)
  case Nil
  show ?case by simp
next
  case (Cons a ps)
  show ?case
  proof (cases "p_id a = i")
    case True
    with distinct_map_head [OF Cons.prems(1)] have "\<forall>p \<in> set ps. p_id p \<noteq> i" by metis
    then have "filter (\<lambda>p. p_id p \<noteq> i) ps = ps" by simp
    with True show ?thesis by simp
  next
    case False
    with Cons show ?thesis by simp
  qed
qed

lemma filter_id_single:
  "distinct (map p_id ps) \<Longrightarrow> q \<in> set ps \<Longrightarrow> filter (\<lambda>p. p_id p = p_id q) ps = [q]"
proof (induction ps)
  case Nil
  then show ?case by simp
next
  case (Cons a ps)
  show ?case
  proof (cases "a = q")
    case True
    with distinct_map_head [OF Cons.prems(1)] have "\<forall>p \<in> set ps. p_id p \<noteq> p_id q" by metis
    then have "filter (\<lambda>p. p_id p = p_id q) ps = []" by simp
    with True show ?thesis by simp
  next
    case False
    with Cons.prems have q: "q \<in> set ps" by simp
    with distinct_map_head [OF Cons.prems(1)] have "p_id a \<noteq> p_id q" by metis
    with Cons q show ?thesis by simp
  qed
qed

lemma same_id_same_doc:
  "distinct (map p_id ps) \<Longrightarrow> p \<in> set ps \<Longrightarrow> q \<in> set ps \<Longrightarrow> p_id p = p_id q \<Longrightarrow> p = q"
  by (meson distinct_map inj_onD)

lemma getProfileById_Some_iff:
  "distinct (map p_id ps) \<Longrightarrow>
   getProfileById i ps = Some d \<longleftrightarrow> (d \<in> set ps \<and> p_id d = i)"
proof
  assume "getProfileById i ps = Some d"
  then show "d \<in> set ps \<and> p_id d = i"
    unfolding getProfileById_def by (auto dest: findOne_SomeD)
next
  assume dist: "distinct (map p_id ps)" and h: "d \<in> set ps \<and> p_id d = i"
  have "findOne (\<lambda>p. p_id p = i) ps = Some d"
  proof (rule findOne_unique)
    show "d \<in> set ps" using h by simp
    show "p_id d = i" using h by simp
    show "\<forall>p\<in>set ps. p_id p = i \<longrightarrow> p = d"
      using same_id_same_doc [OF dist] h by blast
  qed
  then show "getProfileById i ps = Some d" by (simp add: getProfileById_def)
qed

lemma getProfileById_None_iff: "getProfileById i ps = None \<longleftrightarrow> (\<forall>p \<in> set ps. p_id p \<noteq> i)"
  by (simp add: getProfileById_def findOne_None_iff)

lemma saveProfile_promote:
  "validateProfile isURL other = None \<Longrightarrow>
   saveProfile isURL (Some other) (other\<lparr>isDefault := True\<rparr>) ps =
     (Inr (other\<lparr>isDefault := True\<rparr>),
      updateOne (\<lambda>p. p_id p = p_id other) (\<lambda>p. other\<lparr>isDefault := True\<rparr>)
        (preSaveDefault (\<not> isDefault other) (other\<lparr>isDefault := True\<rparr>) ps))"
proof -
  assume v: "validateProfile isURL other = None"
  have "validateProfile isURL (other\<lparr>isDefault := True\<rparr>) = validateProfile isURL other"
    by (simp add: validateProfile_def)
  with v show ?thesis by (simp add: saveProfile_def preSaveName_def)
qed

lemma map_p_id_preSaveDefault: "map p_id (preSaveDefault m doc ps) = map p_id ps"
  by (simp add: preSaveDefault_def updateMany_def comp_def)

lemma promote_result:
  assumes dist: "distinct (map p_id ps)" and nd: "\<not> isDefault other"
  shows "updateOne (\<lambda>p. p_id p = p_id other) (\<lambda>p. other\<lparr>isDefault := True\<rparr>)
           (preSaveDefault (\<not> isDefault other) (other\<lparr>isDefault := True\<rparr>) ps) =
         map (\<lambda>p. if p_id p = p_id other then other\<lparr>isDefault := True\<rparr>
                   else if userId p = userId other then p\<lparr>isDefault := False\<rparr> else p) ps"
proof -
  let ?ps1 = "preSaveDefault (\<not> isDefault other) (other\<lparr>isDefault := True\<rparr>) ps"
  have d1: "distinct (map p_id ?ps1)" using dist by (simp add: map_p_id_preSaveDefault)
  have "?ps1 = map (\<lambda>p. if userId p = userId other \<and> p_id p \<noteq> p_id other
                         then p\<lparr>isDefault := False\<rparr> else p) ps"
    using nd by (simp add: preSaveDefault_def updateMany_def)
  then show ?thesis
    unfolding updateOne_map [OF d1] by (simp add: comp_def cong: if_cong)
qed

lemma wellFormed_distinct: "wellFormed isURL ps \<Longrightarrow> distinct (map p_id ps)"
  by (simp add: wellFormed_def)

lemma wellFormed_valid: "wellFormed isURL ps \<Longrightarrow> p \<in> set ps \<Longrightarrow> validateProfile isURL p = None"
  by (simp add: wellFormed_def)

lemma other_profile_exists:
  assumes dist: "distinct (map p_id ps)" and d: "d \<in> set ps"
    and two: "2 \<le> length (profilesOf (userId d) ps)"
  shows "\<exists>other. findOne (\<lambda>p. userId p = userId d \<and> p_id p \<noteq> p_id d) ps = Some other"
proof (rule ccontr)
  assume "\<not> ?thesis"
  then have "findOne (\<lambda>p. userId p = userId d \<and> p_id p \<noteq> p_id d) ps = None" by simp
  then have all: "\<forall>p \<in> set ps. userId p = userId d \<longrightarrow> p_id p = p_id d"
    by (simp add: findOne_None_iff)
  have "profilesOf (userId d) ps =
        filter (\<lambda>p. userId p = userId d) (filter (\<lambda>p. p_id p = p_id d) ps)"
    unfolding profilesOf_def filter_filter using all by (intro filter_cong) auto
  also have "\<dots> = filter (\<lambda>p. userId p = userId d) [d]"
    by (simp only: filter_id_single [OF dist d])
  finally have "length (profilesOf (userId d) ps) \<le> 1" by simp
  with two show False by simp
qed

lemma deleteProfileById_missing:
  "getProfileById i ps = None \<Longrightarrow>
   deleteProfileById isURL i ps = (Inl (NOT_FOUND ''Profile not found''), ps)"
  by (simp add: deleteProfileById_def)

lemma deleteProfileById_plain:
  assumes dist: "distinct (map p_id ps)" and g: "getProfileById i ps = Some d"
    and plain: "\<not> isDefault d \<or>
      findOne (\<lambda>p. userId p = userId d \<and> p_id p \<noteq> i) ps = None"
  shows "deleteProfileById isURL i ps = (Inr d, filter (\<lambda>p. p_id p \<noteq> i) ps)"
  using g plain by (auto simp: deleteProfileById_def deleteOne_filter [OF dist])

lemma promoted_ids:
  assumes dist: "distinct (map p_id ps)" and o: "other \<in> set ps"
  shows "map p_id
           (map (\<lambda>p. if p_id p = p_id other then other\<lparr>isDefault := True\<rparr>
                     else if userId p = userId other then p\<lparr>isDefault := False\<rparr> else p) ps)
         = map p_id ps"
  by (simp add: comp_def)

lemma deleteProfileById_promoting:
  assumes wf: "wellFormed isURL ps" and g: "getProfileById i ps = Some d" and dflt: "isDefault d"
    and f: "findOne (\<lambda>p. userId p = userId d \<and> p_id p \<noteq> i) ps = Some other"
    and nd: "\<not> isDefault other"
  shows "deleteProfileById isURL i ps =
     (Inr d,
      filter (\<lambda>p. p_id p \<noteq> i)
        (map (\<lambda>p. if p_id p = p_id other then other\<lparr>isDefault := True\<rparr>
                  else if userId p = userId other then p\<lparr>isDefault := False\<rparr> else p) ps))"
proof -
  let ?H = "\<lambda>p. if p_id p = p_id other then other\<lparr>isDefault := True\<rparr>
                  else if userId p = userId other then p\<lparr>isDefault := False\<rparr> else p"
  have dist: "distinct (map p_id ps)" using wf by (rule wellFormed_distinct)
  from findOne_SomeD [OF f] have o: "other \<in> set ps" by simp
  then have v: "validateProfile isURL other = None" using wf by (simp add: wellFormed_valid)
  have sv: "saveProfile isURL (Some other) (other\<lparr>isDefault := True\<rparr>) ps =
      (Inr (other\<lparr>isDefault := True\<rparr>), map ?H ps)"
    using saveProfile_promote [OF v, of ps] promote_result [OF dist nd] by simp
  have d2: "distinct (map p_id (map ?H ps))"
    unfolding promoted_ids [OF dist o] by (rule dist)
  show ?thesis
    using g dflt f sv by (simp add: deleteProfileById_def deleteOne_filter [OF d2])
qed

lemma deleteProfileById_succeeds:
  assumes wf: "wellFormed isURL ps" and g: "getProfileById i ps = Some d"
  shows "fst (deleteProfileById isURL i ps) = Inr d"
proof (cases "isDefault d")
  case False
  with g show ?thesis by (simp add: deleteProfileById_def)
next
  case True
  show ?thesis
  proof (cases "findOne (\<lambda>p. userId p = userId d \<and> p_id p \<noteq> i) ps")
    case None
    with g True show ?thesis by (simp add: deleteProfileById_def)
  next
    case (Some other)
    from findOne_SomeD [OF Some] wf have "validateProfile isURL other = None"
      by (simp add: wellFormed_valid)
    from saveProfile_promote [OF this, of ps] g True Some show ?thesis
      by (simp add: deleteProfileById_def)
  qed
qed

lemma defaultCount_after_promotion:
  assumes dist: "distinct (map p_id ps)" and o: "other \<in> set ps" and ne: "p_id other \<noteq> i"
  shows "defaultCount (userId other)
           (filter (\<lambda>p. p_id p \<noteq> i)
              (map (\<lambda>p. if p_id p = p_id other then other\<lparr>isDefault := True\<rparr>
                        else if userId p = userId other then p\<lparr>isDefault := False\<rparr> else p) ps))
         = 1"
proof -
  let ?H = "\<lambda>p. if p_id p = p_id other then other\<lparr>isDefault := True\<rparr>
                  else if userId p = userId other then p\<lparr>isDefault := False\<rparr> else p"
  have "filter (\<lambda>p. userId p = userId other \<and> isDefault p) (filter (\<lambda>p. p_id p \<noteq> i) (map ?H ps))
        = map ?H (filter (\<lambda>p. p_id p = p_id other) ps)"
    unfolding filter_filter filter_map
    by (rule arg_cong [of _ _ "map ?H"], rule filter_cong) (auto simp: ne)
  also have "\<dots> = map ?H [other]" by (simp only: filter_id_single [OF dist o])
  finally show ?thesis by (simp add: defaultCount_def)
qed

lemma profilesOf_after_delete:
  assumes dist: "distinct (map p_id ps)" and d: "d \<in> set ps"
    and keep: "\<forall>p \<in> set ps. userId (H p) = userId p \<and> p_id (H p) = p_id p"
  shows "length (profilesOf (userId d) (filter (\<lambda>p. p_id p \<noteq> p_id d) (map H ps))) =
         length (profilesOf (userId d) ps) - 1"
proof -
  let ?u = "userId d"
  have a: "filter (\<lambda>p. userId p = ?u) (filter (\<lambda>p. p_id p \<noteq> p_id d) (map H ps)) =
        map H (filter (\<lambda>p. p_id p \<noteq> p_id d) (filter (\<lambda>p. userId p = ?u) ps))"
    unfolding filter_filter filter_map
    by (rule arg_cong [of _ _ "map H"], rule filter_cong) (use keep in auto)
  have "filter (\<lambda>p. \<not> p_id p \<noteq> p_id d) (filter (\<lambda>p. userId p = ?u) ps) =
        filter (\<lambda>p. userId p = ?u) (filter (\<lambda>p. p_id p = p_id d) ps)"
    unfolding filter_filter by (rule filter_cong) auto
  also have "\<dots> = [d]" by (simp add: filter_id_single [OF dist d])
  finally have b: "length (filter (\<lambda>p. \<not> p_id p \<noteq> p_id d) (filter (\<lambda>p. userId p = ?u) ps)) = 1"
    by simp
  have "length (filter (\<lambda>p. p_id p \<noteq> p_id d) (filter (\<lambda>p. userId p = ?u) ps)) +
        length (filter (\<lambda>p. \<not> p_id p \<noteq> p_id d) (filter (\<lambda>p. userId p = ?u) ps)) =
        length (filter (\<lambda>p. userId p = ?u) ps)"
    by (rule sum_length_filter_compl)
  with b have "length (filter (\<lambda>p. p_id p \<noteq> p_id d) (filter (\<lambda>p. userId p = ?u) ps)) =
      length (filter (\<lambda>p. userId p = ?u) ps) - 1" by simp
  with a show ?thesis by (simp add: profilesOf_def)
qed

text \<open>
  C5. \<^verbatim>\<open>deleteProfileById\<close> signals \<^verbatim>\<open>NOT_FOUND\<close> when no profile has the id, and on a
  well-formed collection it fails in no other case. When it deletes the default profile
  of an account that has at least two profiles, it returns the deleted profile, exactly
  one profile of the account is default afterwards, the deleted id is gone and the
  account has one profile less. When it deletes the only profile of an account, the
  account is left with no profile.
\<close>

theorem deleteProfileById_cascade:
  "(getProfileById i ps = None \<longrightarrow>
      deleteProfileById isURL i ps = (Inl (NOT_FOUND ''Profile not found''), ps)) \<and>
   (wellFormed isURL ps \<longrightarrow>
      ((\<exists>e. fst (deleteProfileById isURL i ps) = Inl e) \<longleftrightarrow> getProfileById i ps = None)) \<and>
   (wellFormed isURL ps \<and> getProfileById i ps = Some d \<and> isDefault d \<and>
    (\<forall>p \<in> set ps. userId p = userId d \<and> isDefault p \<longrightarrow> p = d) \<and>
    2 \<le> length (profilesOf (userId d) ps) \<longrightarrow>
      fst (deleteProfileById isURL i ps) = Inr d \<and>
      defaultCount (userId d) (snd (deleteProfileById isURL i ps)) = 1 \<and>
      (\<forall>p \<in> set (snd (deleteProfileById isURL i ps)). p_id p \<noteq> i) \<and>
      length (profilesOf (userId d) (snd (deleteProfileById isURL i ps))) =
        length (profilesOf (userId d) ps) - 1) \<and>
   (wellFormed isURL ps \<and> getProfileById i ps = Some d \<and> profilesOf (userId d) ps = [d] \<longrightarrow>
      fst (deleteProfileById isURL i ps) = Inr d \<and>
      profilesOf (userId d) (snd (deleteProfileById isURL i ps)) = [])"
proof (intro conjI impI)
  assume "getProfileById i ps = None"
  then show "deleteProfileById isURL i ps = (Inl (NOT_FOUND ''Profile not found''), ps)"
    by (rule deleteProfileById_missing)
next
  assume wf: "wellFormed isURL ps"
  show "(\<exists>e. fst (deleteProfileById isURL i ps) = Inl e) \<longleftrightarrow> getProfileById i ps = None"
  proof (cases "getProfileById i ps")
    case None
    then show ?thesis by (simp add: deleteProfileById_missing)
  next
    case (Some d)
    from deleteProfileById_succeeds [OF wf Some] Some show ?thesis by simp
  qed
next
  assume h: "wellFormed isURL ps \<and> getProfileById i ps = Some d \<and> isDefault d \<and>
    (\<forall>p \<in> set ps. userId p = userId d \<and> isDefault p \<longrightarrow> p = d) \<and>
    2 \<le> length (profilesOf (userId d) ps)"
  then have wf: "wellFormed isURL ps" and g: "getProfileById i ps = Some d" and dflt: "isDefault d"
    and uniq: "\<forall>p \<in> set ps. userId p = userId d \<and> isDefault p \<longrightarrow> p = d"
    and two: "2 \<le> length (profilesOf (userId d) ps)" by simp_all
  have dist: "distinct (map p_id ps)" using wf by (rule wellFormed_distinct)
  from g dist have d: "d \<in> set ps" and di: "p_id d = i"
    by (simp_all add: getProfileById_Some_iff)
  from other_profile_exists [OF dist d two] di obtain other
    where f: "findOne (\<lambda>p. userId p = userId d \<and> p_id p \<noteq> i) ps = Some other" by auto
  from findOne_SomeD [OF f] have o: "other \<in> set ps" and ou: "userId other = userId d"
    and oi: "p_id other \<noteq> i" by simp_all
  from oi di have "other \<noteq> d" by auto
  with uniq o ou have nd: "\<not> isDefault other" by auto
  let ?H = "\<lambda>p. if p_id p = p_id other then other\<lparr>isDefault := True\<rparr>
                  else if userId p = userId other then p\<lparr>isDefault := False\<rparr> else p"
  have res: "deleteProfileById isURL i ps = (Inr d, filter (\<lambda>p. p_id p \<noteq> i) (map ?H ps))"
    by (rule deleteProfileById_promoting [OF wf g dflt f nd])
  show "fst (deleteProfileById isURL i ps) = Inr d" using res by simp
  show "defaultCount (userId d) (snd (deleteProfileById isURL i ps)) = 1"
    using defaultCount_after_promotion [OF dist o oi] res ou by simp
  show "\<forall>p \<in> set (snd (deleteProfileById isURL i ps)). p_id p \<noteq> i" using res by simp
  have keep: "\<forall>p \<in> set ps. userId (?H p) = userId p \<and> p_id (?H p) = p_id p"
    using same_id_same_doc [OF dist _ o] by auto
  show "length (profilesOf (userId d) (snd (deleteProfileById isURL i ps))) =
        length (profilesOf (userId d) ps) - 1"
    using profilesOf_after_delete [OF dist d keep] res di by simp
next
  assume h: "wellFormed isURL ps \<and> getProfileById i ps = Some d \<and> profilesOf (userId d) ps = [d]"
  then have wf: "wellFormed isURL ps" and g: "getProfileById i ps = Some d"
    and only: "profilesOf (userId d) ps = [d]" by simp_all
  have dist: "distinct (map p_id ps)" using wf by (rule wellFormed_distinct)
  from g dist have d: "d \<in> set ps" and di: "p_id d = i"
    by (simp_all add: getProfileById_Some_iff)
  show "fst (deleteProfileById isURL i ps) = Inr d" by (rule deleteProfileById_succeeds [OF wf g])
  have none: "findOne (\<lambda>p. userId p = userId d \<and> p_id p \<noteq> i) ps = None"
    unfolding findOne_None_iff
  proof
    fix p assume p: "p \<in> set ps"
    show "\<not> (userId p = userId d \<and> p_id p \<noteq> i)"
    proof
      assume a: "userId p = userId d \<and> p_id p \<noteq> i"
      with p have "p \<in> set (profilesOf (userId d) ps)" by (simp add: profilesOf_def)
      with only have "p = d" by simp
      with a di show False by simp
    qed
  qed
  then have res: "deleteProfileById isURL i ps = (Inr d, filter (\<lambda>p. p_id p \<noteq> i) ps)"
    using deleteProfileById_plain [OF dist g] by simp
  have "profilesOf (userId d) (filter (\<lambda>p. p_id p \<noteq> i) ps) =
        filter (\<lambda>p. p_id p \<noteq> i) (profilesOf (userId d) ps)"
    unfolding profilesOf_def filter_filter by (rule filter_cong) auto
  with only di res show "profilesOf (userId d) (snd (deleteProfileById isURL i ps)) = []" by simp
qed

subsection \<open>The theorems at the sample documents\<close>

theorem getDefault_unique_or_not_found_witness:
  "getDefaultProfileController 1 [profileA, profileB] = Inr profileA \<and>
   getDefaultProfileController 2 [profileA, profileB] =
     Inl (NOT_FOUND ''No default profile found'')"
proof -
  have a: "profileA \<in> set [profileA, profileB] \<and> userId profileA = 1 \<and> isDefault profileA \<and>
      (\<forall>p \<in> set [profileA, profileB]. userId p = 1 \<and> isDefault p \<longrightarrow> p = profileA)"
    by (simp add: profileA_def profileB_def)
  have b: "\<forall>p \<in> set [profileA, profileB]. \<not> (userId p = 2 \<and> isDefault p)"
    by (simp add: profileA_def profileB_def)
  from a getDefault_unique_or_not_found [of profileA "[profileA, profileB]" 1]
  have "getDefaultProfileController 1 [profileA, profileB] = Inr profileA" by blast
  moreover from b getDefault_unique_or_not_found [of profileA "[profileA, profileB]" 2]
  have "getDefaultProfileController 2 [profileA, profileB] =
     Inl (NOT_FOUND ''No default profile found'')" by blast
  ultimately show ?thesis by simp
qed

theorem createProfile_default_demotes_siblings_witness:
  "fst (createProfile sampleIsURL bodyThird [profileA, profileB]) =
     Inr (createdDoc bodyThird [profileA, profileB]) \<and>
   isDefault (createdDoc bodyThird [profileA, profileB]) \<and>
   snd (createProfile sampleIsURL bodyThird [profileA, profileB]) =
     [profileA\<lparr>isDefault := False\<rparr>, profileB\<lparr>isDefault := False\<rparr>,
      createdDoc bodyThird [profileA, profileB]]"
proof -
  have r: "fst (createProfile sampleIsURL bodyThird [profileA, profileB]) =
     Inr (createdDoc bodyThird [profileA, profileB])"
    by (simp add: eval_defs createdDoc_def profilesOf_def profileA_def profileB_def bodyThird_def)
  have i: "isDefault (createdDoc bodyThird [profileA, profileB])"
    by (simp add: createdDoc_def newProfile_def bodyThird_def)
  from r i createProfile_default_demotes_siblings
    [of sampleIsURL bodyThird "[profileA, profileB]" "createdDoc bodyThird [profileA, profileB]"]
  have "snd (createProfile sampleIsURL bodyThird [profileA, profileB]) =
      map (\<lambda>p. if userId p = b_userId bodyThird then p\<lparr>isDefault := False\<rparr> else p)
        [profileA, profileB] @ [createdDoc bodyThird [profileA, profileB]]" by blast
  then have "snd (createProfile sampleIsURL bodyThird [profileA, profileB]) =
     [profileA\<lparr>isDefault := False\<rparr>, profileB\<lparr>isDefault := False\<rparr>,
      createdDoc bodyThird [profileA, profileB]]"
    by (simp add: profileA_def profileB_def bodyThird_def)
  with r i show ?thesis by simp
qed

theorem createProfile_conflict_iff_name_taken_witness:
  "fst (createProfile sampleIsURL (bodyThird\<lparr>b_profileName := '' first ''\<rparr>) [profileA, profileB]) =
     Inl (BAD_REQUEST ''Profile name already exists for this user'') \<and>
   (\<exists>d. fst (createProfile sampleIsURL bodyThird [profileA, profileB]) = Inr d \<and> userId d = 1 \<and>
        profileName d = ''third'') \<and>
   (\<exists>d d2. fst (createProfile sampleIsURL bodyThird [profileA, profileB]) = Inr d \<and>
      fst (createProfile sampleIsURL (bodyThird\<lparr>b_userId := 2\<rparr>)
             (snd (createProfile sampleIsURL bodyThird [profileA, profileB]))) = Inr d2) \<and>
   (\<exists>m. createProfile sampleIsURL (bodyThird\<lparr>b_profileName := '' A''\<rparr>) [profileA, profileB] =
      (Inl (ValidationError m), [profileA, profileB])) \<and>
   (\<exists>m. createProfile sampleIsURL (bodyThird\<lparr>b_avatar := Some ''no url''\<rparr>) [profileA, profileB] =
      (Inl (ValidationError m), [profileA, profileB]))"
proof -
  let ?ps = "[profileA, profileB]"
  have t: "\<exists>p \<in> set ?ps. userId p = b_userId (bodyThird\<lparr>b_profileName := '' first ''\<rparr>) \<and>
      profileName p = trim (b_profileName (bodyThird\<lparr>b_profileName := '' first ''\<rparr>))"
    by (simp add: profileA_def bodyThird_def trim_def isWhitespace_def)
  have f: "\<not> (\<exists>p \<in> set ?ps. userId p = b_userId bodyThird \<and>
      profileName p = trim (b_profileName bodyThird))"
    by (simp add: profileA_def profileB_def bodyThird_def trim_def isWhitespace_def)
  have v: "bodyPassesValidation sampleIsURL bodyThird"
    by (simp add: bodyPassesValidation_def validateProfile_def newProfile_def bodyThird_def
          trim_def isWhitespace_def)
  have v2: "bodyPassesValidation sampleIsURL (bodyThird\<lparr>b_userId := 2\<rparr>)"
    by (simp add: bodyPassesValidation_def validateProfile_def newProfile_def bodyThird_def
          trim_def isWhitespace_def)
  have two: "trim (b_profileName (bodyThird\<lparr>b_userId := 2\<rparr>)) = trim (b_profileName bodyThird) \<and>
      b_userId (bodyThird\<lparr>b_userId := 2\<rparr>) \<noteq> b_userId bodyThird \<and>
      \<not> (\<exists>p \<in> set ?ps. profileName p = trim (b_profileName bodyThird) \<and>
            (userId p = b_userId bodyThird \<or> userId p = b_userId (bodyThird\<lparr>b_userId := 2\<rparr>)))"
    by (simp add: profileA_def profileB_def bodyThird_def trim_def isWhitespace_def)
  from t createProfile_conflict_iff_name_taken
    [of sampleIsURL "bodyThird\<lparr>b_profileName := '' first ''\<rparr>" ?ps]
  have a: "fst (createProfile sampleIsURL (bodyThird\<lparr>b_profileName := '' first ''\<rparr>) ?ps) =
     Inl (BAD_REQUEST ''Profile name already exists for this user'')" by blast
  from f v createProfile_conflict_iff_name_taken [of sampleIsURL bodyThird ?ps]
  have "\<exists>d. fst (createProfile sampleIsURL bodyThird ?ps) = Inr d \<and> userId d = b_userId bodyThird \<and>
      profileName d = trim (b_profileName bodyThird) \<and> d \<in> set (snd (createProfile sampleIsURL bodyThird ?ps))"
    by blast
  then have b: "\<exists>d. fst (createProfile sampleIsURL bodyThird ?ps) = Inr d \<and> userId d = 1 \<and>
      profileName d = ''third''"
    by (auto simp: bodyThird_def trim_def isWhitespace_def)
  from v v2 two createProfile_conflict_iff_name_taken
    [of sampleIsURL bodyThird ?ps "bodyThird\<lparr>b_userId := 2\<rparr>"]
  have c: "\<exists>d d2. fst (createProfile sampleIsURL bodyThird ?ps) = Inr d \<and>
      fst (createProfile sampleIsURL (bodyThird\<lparr>b_userId := 2\<rparr>) (snd (createProfile sampleIsURL bodyThird ?ps))) = Inr d2"
    by blast
  have f1: "\<not> (\<exists>p \<in> set ?ps. userId p = b_userId (bodyThird\<lparr>b_profileName := '' A''\<rparr>) \<and>
      profileName p = trim (b_profileName (bodyThird\<lparr>b_profileName := '' A''\<rparr>)))"
    by (simp add: profileA_def profileB_def bodyThird_def trim_def isWhitespace_def)
  have n1: "\<not> bodyPassesValidation sampleIsURL (bodyThird\<lparr>b_profileName := '' A''\<rparr>)"
    by (simp add: bodyPassesValidation_def validateProfile_def newProfile_def bodyThird_def
          trim_def isWhitespace_def)
  have f2: "\<not> (\<exists>p \<in> set ?ps. userId p = b_userId (bodyThird\<lparr>b_avatar := Some ''no url''\<rparr>) \<and>
      profileName p = trim (b_profileName (bodyThird\<lparr>b_avatar := Some ''no url''\<rparr>)))"
    by (simp add: profileA_def profileB_def bodyThird_def trim_def isWhitespace_def)
  have n2: "\<not> bodyPassesValidation sampleIsURL (bodyThird\<lparr>b_avatar := Some ''no url''\<rparr>)"
    by (simp add: bodyPassesValidation_def validateProfile_def newProfile_def bodyThird_def
          trim_def isWhitespace_def sampleIsURL_def)
  from f1 n1 createProfile_conflict_iff_name_taken
    [of sampleIsURL "bodyThird\<lparr>b_profileName := '' A''\<rparr>" ?ps]
  have d: "\<exists>m. createProfile sampleIsURL (bodyThird\<lparr>b_profileName := '' A''\<rparr>) ?ps =
      (Inl (ValidationError m), ?ps)" by blast
  from f2 n2 createProfile_conflict_iff_name_taken
    [of sampleIsURL "bodyThird\<lparr>b_avatar := Some ''no url''\<rparr>" ?ps]
  have e: "\<exists>m. createProfile sampleIsURL (bodyThird\<lparr>b_avatar := Some ''no url''\<rparr>) ?ps =
      (Inl (ValidationError m), ?ps)" by blast
  from a b c d e show ?thesis by blast
qed

theorem deleteProfileById_cascade_witness:
  "wellFormed sampleIsURL [profileA, profileB] \<and>
   fst (deleteProfileById sampleIsURL 1 [profileA, profileB]) = Inr profileA \<and>
   defaultCount 1 (snd (deleteProfileById sampleIsURL 1 [profileA, profileB])) = 1 \<and>
   length (profilesOf 1 (snd (deleteProfileById sampleIsURL 1 [profileA, profileB]))) = 1 \<and>
   deleteProfileById sampleIsURL 3 [profileA, profileB] =
     (Inl (NOT_FOUND ''Profile not found''), [profileA, profileB])"
proof -
  let ?ps = "[profileA, profileB]"
  have wf: "wellFormed sampleIsURL ?ps"
    by (simp add: wellFormed_def validateProfile_def profileA_def profileB_def)
  have g: "getProfileById 1 ?ps = Some profileA"
    by (simp add: getProfileById_def findOne_def profileA_def)
  have n: "getProfileById 3 ?ps = None"
    by (simp add: getProfileById_def findOne_def profileA_def profileB_def)
  have u: "userId profileA = 1" by (simp add: profileA_def)
  have h: "isDefault profileA \<and>
    (\<forall>p \<in> set ?ps. userId p = userId profileA \<and> isDefault p \<longrightarrow> p = profileA) \<and>
    2 \<le> length (profilesOf (userId profileA) ?ps)"
    by (simp add: profilesOf_def profileA_def profileB_def)
  from wf g h deleteProfileById_cascade [of 1 ?ps sampleIsURL profileA]
  have "fst (deleteProfileById sampleIsURL 1 ?ps) = Inr profileA \<and>
      defaultCount (userId profileA) (snd (deleteProfileById sampleIsURL 1 ?ps)) = 1 \<and>
      length (profilesOf (userId profileA) (snd (deleteProfileById sampleIsURL 1 ?ps))) =
        length (profilesOf (userId profileA) ?ps) - 1" by blast
  moreover have "length (profilesOf (userId profileA) ?ps) = 2"
    by (simp add: profilesOf_def profileA_def profileB_def)
  moreover from n deleteProfileById_cascade [of 3 ?ps sampleIsURL profileA]
  have "deleteProfileById sampleIsURL 3 ?ps = (Inl (NOT_FOUND ''Profile not found''), ?ps)" by blast
  ultimately show ?thesis using wf u by simp
qed

section \<open>Properties of account creation and of sequences of profile operations\<close>

lemma isDigit_digitChar: "d < 10 \<Longrightarrow> isDigit (digitChar d)"
  unfolding isDigit_def digitChar_def by (rule nth_mem) simp

lemma decimal_digits: "list_all isDigit (decimal n)"
proof (induction n rule: decimal.induct)
  case (1 n)
  show ?case
  proof (cases "n < 10")
    case True
    then show ?thesis by (subst decimal.simps) (simp add: isDigit_digitChar)
  next
    case False
    have "n mod 10 < 10" by simp
    then have "isDigit (digitChar (n mod 10))" by (rule isDigit_digitChar)
    with False "1.IH" show ?thesis by (subst decimal.simps) simp
  qed
qed

lemma decimal_step: "10 \<le> n \<Longrightarrow> length (decimal n) = Suc (length (decimal (n div 10)))"
  by (subst decimal.simps) simp

lemma decimal_length_1: "n < 10 \<Longrightarrow> length (decimal n) = 1"
  by (subst decimal.simps) simp

lemma decimal_length_6:
  assumes lo: "100000 \<le> n" and hi: "n < 1000000"
  shows "length (decimal n) = 6"
proof -
  have a: "length (decimal n) = Suc (length (decimal (n div 10)))"
    using lo by (intro decimal_step) simp
  have b: "length (decimal (n div 10)) = Suc (length (decimal (n div 10 div 10)))"
    using lo by (intro decimal_step) simp
  have c: "length (decimal (n div 10 div 10)) = Suc (length (decimal (n div 10 div 10 div 10)))"
    using lo by (intro decimal_step) simp
  have d: "length (decimal (n div 10 div 10 div 10)) =
      Suc (length (decimal (n div 10 div 10 div 10 div 10)))"
    using lo by (intro decimal_step) simp
  have e: "length (decimal (n div 10 div 10 div 10 div 10)) =
      Suc (length (decimal (n div 10 div 10 div 10 div 10 div 10)))"
    using lo by (intro decimal_step) simp
  have f: "length (decimal (n div 10 div 10 div 10 div 10 div 10)) = 1"
    using hi by (intro decimal_length_1) simp
  from a b c d e f show ?thesis by simp
qed

lemma anonymous_name_shape:
  "r < 900000 \<Longrightarrow>
   \<exists>ds. generateAnonymousProfileName r = ''Neswa'' @ ds \<and> length ds = 6 \<and> list_all isDigit ds"
proof -
  assume "r < 900000"
  then have "length (decimal (100000 + r)) = 6" by (intro decimal_length_6) simp_all
  then show ?thesis
    unfolding generateAnonymousProfileName_def using decimal_digits by blast
qed

lemma createDefaultProfiles_calls:
  "fst (createDefaultProfiles cp u body r ps) =
     (case fst (cp (publicProfileBody u body) ps) of
        Inl e \<Rightarrow> [publicProfileBody u body]
      | Inr p \<Rightarrow> [publicProfileBody u body, anonymousProfileBody u r])"
  by (simp add: createDefaultProfiles_def Let_def split: sum.splits)


text \<open>
  C8, as stated, fails. The account's name has one character. The account is created and
  returned, but the creation of the public profile is rejected by the profile schema, the
  \<^verbatim>\<open>try\<close> block is left, and the anonymous profile is never attempted: \<^verbatim>\<open>createProfile\<close> is
  called once, not twice, and the account ends with no profile, although the creation of
  the anonymous profile would have succeeded.
\<close>

theorem createUser_two_attempts_counterexample:
  "fst (createUser sampleIsURL acceptAll 0 bodyA emptyDatabase) = Inr (newUser bodyA []) \<and>
   fst (createDefaultProfiles (createProfile sampleIsURL) (newUser bodyA []) bodyA 0 []) =
     [publicProfileBody (newUser bodyA []) bodyA] \<and>
   profiles (snd (createUser sampleIsURL acceptAll 0 bodyA emptyDatabase)) = [] \<and>
   fst (createProfile sampleIsURL (anonymousProfileBody (newUser bodyA []) 0) []) =
     Inr (createdDoc (anonymousProfileBody (newUser bodyA []) 0) [])"
  by (simp add: createUser_def createUserWith_def isEmailTaken_def isUsernameTaken_def
        User_create_def acceptAll_def emptyDatabase_def createDefaultProfiles_def
        publicProfileBody_def anonymousProfileBody_def generateAnonymousProfileName_def
        bodyA_def newUser_def createdDoc_def profilesOf_def eval_defs)

text \<open>
  C8, amended. Once the account passes the two uniqueness checks and its schema,
  \<^verbatim>\<open>createUser\<close> returns the created account whatever the profile service does. It
  calls the profile service for the public profile (named after the account's name,
  \<^verbatim>\<open>isDefault\<close> true) and, only when that call succeeded, for the anonymous profile (named
  \<^verbatim>\<open>Neswa\<close> followed by six digits, \<^verbatim>\<open>isDefault\<close> false); a failed call is swallowed and
  ends the provisioning.
\<close>

theorem createUser_swallows_profile_failures:
  "(\<not> isEmailTaken (ub_email body) (users db) \<and>
    \<not> isUsernameTaken (ub_username body) (users db) \<and> schemaOk body \<longrightarrow>
      fst (createUserWith cp schemaOk r body db) = Inr (newUser body (users db)) \<and>
      users (snd (createUserWith cp schemaOk r body db)) = users db @ [newUser body (users db)] \<and>
      profiles (snd (createUserWith cp schemaOk r body db)) =
        snd (createDefaultProfiles cp (newUser body (users db)) body r (profiles db)) \<and>
      fst (createUser isURL schemaOk r body db) = Inr (newUser body (users db))) \<and>
   fst (createDefaultProfiles cp u body r ps) =
     (case fst (cp (publicProfileBody u body) ps) of
        Inl e \<Rightarrow> [publicProfileBody u body]
      | Inr p \<Rightarrow> [publicProfileBody u body, anonymousProfileBody u r]) \<and>
   b_userId (publicProfileBody u body) = user_id u \<and>
   b_profileName (publicProfileBody u body) = ub_name body \<and>
   b_profileType (publicProfileBody u body) = Some TypePublic \<and>
   b_isDefault (publicProfileBody u body) = Some True \<and>
   b_userId (anonymousProfileBody u r) = user_id u \<and>
   b_profileType (anonymousProfileBody u r) = Some TypeAnonymous \<and>
   b_isDefault (anonymousProfileBody u r) = Some False \<and>
   (r < 900000 \<longrightarrow>
      (\<exists>ds. b_profileName (anonymousProfileBody u r) = ''Neswa'' @ ds \<and> length ds = 6 \<and>
            list_all isDigit ds))"
proof -
  have acct: "\<not> isEmailTaken (ub_email body) (users db) \<and>
    \<not> isUsernameTaken (ub_username body) (users db) \<and> schemaOk body \<longrightarrow>
      fst (createUserWith cp schemaOk r body db) = Inr (newUser body (users db)) \<and>
      users (snd (createUserWith cp schemaOk r body db)) = users db @ [newUser body (users db)] \<and>
      profiles (snd (createUserWith cp schemaOk r body db)) =
        snd (createDefaultProfiles cp (newUser body (users db)) body r (profiles db)) \<and>
      fst (createUser isURL schemaOk r body db) = Inr (newUser body (users db))"
    by (simp add: createUser_def createUserWith_def User_create_def)
  have name: "r < 900000 \<longrightarrow>
      (\<exists>ds. b_profileName (anonymousProfileBody u r) = ''Neswa'' @ ds \<and> length ds = 6 \<and>
            list_all isDigit ds)"
    using anonymous_name_shape [of r] by (simp add: anonymousProfileBody_def)
  have shape: "b_userId (publicProfileBody u body) = user_id u \<and>
   b_profileName (publicProfileBody u body) = ub_name body \<and>
   b_profileType (publicProfileBody u body) = Some TypePublic \<and>
   b_isDefault (publicProfileBody u body) = Some True \<and>
   b_userId (anonymousProfileBody u r) = user_id u \<and>
   b_profileType (anonymousProfileBody u r) = Some TypeAnonymous \<and>
   b_isDefault (anonymousProfileBody u r) = Some False"
    by (simp add: publicProfileBody_def anonymousProfileBody_def)
  from acct name shape createDefaultProfiles_calls [of cp u body r ps] show ?thesis
    by (intro conjI) simp_all
qed

theorem createUser_swallows_profile_failures_witness:
  "fst (createUser sampleIsURL acceptAll 7 bodyAna emptyDatabase) = Inr (newUser bodyAna []) \<and>
   fst (createDefaultProfiles (createProfile sampleIsURL) (newUser bodyAna []) bodyAna 7 []) =
     [publicProfileBody (newUser bodyAna []) bodyAna,
      anonymousProfileBody (newUser bodyAna []) 7] \<and>
   (\<exists>ds. b_profileName (anonymousProfileBody (newUser bodyAna []) 7) = ''Neswa'' @ ds \<and>
         length ds = 6 \<and> list_all isDigit ds)"
proof -
  have h: "\<not> isEmailTaken (ub_email bodyAna) (users emptyDatabase) \<and>
    \<not> isUsernameTaken (ub_username bodyAna) (users emptyDatabase) \<and> acceptAll bodyAna"
    by (simp add: isEmailTaken_def isUsernameTaken_def emptyDatabase_def acceptAll_def)
  have r: "(7::nat) < 900000" by simp
  have first: "fst (createProfile sampleIsURL (publicProfileBody (newUser bodyAna []) bodyAna) []) =
      Inr (createdDoc (publicProfileBody (newUser bodyAna []) bodyAna) [])"
    by (simp add: publicProfileBody_def bodyAna_def newUser_def createdDoc_def profilesOf_def
          eval_defs)
  note t = createUser_swallows_profile_failures
    [of bodyAna emptyDatabase acceptAll "createProfile sampleIsURL" 7 sampleIsURL
        "newUser bodyAna []" "[]"]
  from h t have "fst (createUser sampleIsURL acceptAll 7 bodyAna emptyDatabase) =
      Inr (newUser bodyAna (users emptyDatabase))" by blast
  then have a: "fst (createUser sampleIsURL acceptAll 7 bodyAna emptyDatabase) = Inr (newUser bodyAna [])"
    by (simp add: emptyDatabase_def)
  from t have "fst (createDefaultProfiles (createProfile sampleIsURL) (newUser bodyAna []) bodyAna 7 []) =
     (case fst (createProfile sampleIsURL (publicProfileBody (newUser bodyAna []) bodyAna) []) of
        Inl e \<Rightarrow> [publicProfileBody (newUser bodyAna []) bodyAna]
      | Inr p \<Rightarrow> [publicProfileBody (newUser bodyAna []) bodyAna,
                  anonymousProfileBody (newUser bodyAna []) 7])" by blast
  with first have b: "fst (createDefaultProfiles (createProfile sampleIsURL) (newUser bodyAna []) bodyAna 7 []) =
     [publicProfileBody (newUser bodyAna []) bodyAna,
      anonymousProfileBody (newUser bodyAna []) 7]" by simp
  from r t have c: "\<exists>ds. b_profileName (anonymousProfileBody (newUser bodyAna []) 7) = ''Neswa'' @ ds \<and>
         length ds = 6 \<and> list_all isDigit ds" by blast
  from a b c show ?thesis by blast
qed

subsection \<open>The default invariant along sequences of profile operations\<close>

lemma defaultCount_filter_map:
  "defaultCount w (filter Q (map H ps)) =
   length (filter (\<lambda>p. Q (H p) \<and> userId (H p) = w \<and> isDefault (H p)) ps)"
  by (simp add: defaultCount_def filter_map comp_def)

lemma defaultCount_map:
  "defaultCount w (map H ps) = length (filter (\<lambda>p. userId (H p) = w \<and> isDefault (H p)) ps)"
  by (simp add: defaultCount_def filter_map comp_def)

lemma defaultCount_map_same:
  assumes "\<forall>p \<in> set ps. (userId (H p) = w \<and> isDefault (H p)) = (userId p = w \<and> isDefault p)"
  shows "defaultCount w (map H ps) = defaultCount w ps"
proof -
  have "filter (\<lambda>p. userId (H p) = w \<and> isDefault (H p)) ps =
        filter (\<lambda>p. userId p = w \<and> isDefault p) ps"
    using assms by (intro filter_cong) auto
  then show ?thesis by (simp add: defaultCount_map) (simp add: defaultCount_def)
qed

lemma defaultCount_map_single:
  assumes dist: "distinct (map p_id ps)" and o: "other \<in> set ps"
    and only: "\<forall>p \<in> set ps. (userId (H p) = w \<and> isDefault (H p)) = (p_id p = p_id other)"
  shows "defaultCount w (map H ps) = 1"
proof -
  have "filter (\<lambda>p. userId (H p) = w \<and> isDefault (H p)) ps =
        filter (\<lambda>p. p_id p = p_id other) ps"
    using only by (intro filter_cong) auto
  also have "\<dots> = [other]" by (rule filter_id_single [OF dist o])
  finally show ?thesis by (simp add: defaultCount_map)
qed

lemma defaultCount_append:
  "defaultCount w (ps @ [d]) = defaultCount w ps + (if userId d = w \<and> isDefault d then 1 else 0)"
  by (simp add: defaultCount_def)

lemma defaultCount_zero_iff:
  "defaultCount w ps = 0 \<longleftrightarrow> (\<forall>p \<in> set ps. \<not> (userId p = w \<and> isDefault p))"
  by (auto simp: defaultCount_def filter_empty_conv)

lemma validate_isDefault_update: "validateProfile isURL (p\<lparr>isDefault := b\<rparr>) = validateProfile isURL p"
  by (simp add: validateProfile_def)

lemma wellFormed_map:
  assumes wf: "wellFormed isURL ps"
    and keep: "\<forall>p \<in> set ps. p_id (H p) = p_id p \<and> validateProfile isURL (H p) = None"
  shows "wellFormed isURL (map H ps)"
proof -
  have ids: "map p_id (map H ps) = map p_id ps" using keep by (simp add: comp_def)
  have "distinct (map p_id (map H ps))"
    unfolding ids using wf by (simp add: wellFormed_def)
  moreover have "\<forall>q \<in> set (map H ps). validateProfile isURL q = None" using keep by simp
  ultimately show ?thesis unfolding wellFormed_def by blast
qed

lemma wellFormed_filter: "wellFormed isURL ps \<Longrightarrow> wellFormed isURL (filter Q ps)"
  by (simp add: wellFormed_def distinct_map_filter)

lemma wellFormed_append:
  assumes wf: "wellFormed isURL ps" and v: "validateProfile isURL d = None"
    and fresh: "\<forall>p \<in> set ps. p_id p \<noteq> p_id d"
  shows "wellFormed isURL (ps @ [d])"
proof -
  from fresh have "p_id d \<notin> set (map p_id ps)" by auto
  with wf v show ?thesis by (simp add: wellFormed_def)
qed

lemma oneDefaultD:
  "oneDefaultPerAccount ps \<Longrightarrow> p \<in> set ps \<Longrightarrow> defaultCount (userId p) ps = 1"
  by (simp add: oneDefaultPerAccount_def)

lemma createdDoc_valid: "bodyPassesValidation isURL body \<Longrightarrow> validateProfile isURL (createdDoc body ps) = None"
proof -
  have "validateProfile isURL (createdDoc body ps) = validateProfile isURL (newProfile body False [])"
    unfolding createdDoc_def by (rule validate_newProfile)
  then show "bodyPassesValidation isURL body \<Longrightarrow> validateProfile isURL (createdDoc body ps) = None"
    by (simp add: bodyPassesValidation_def)
qed

lemma createProfile_snd_cases:
  "snd (createProfile isURL body ps) = ps \<or>
   (bodyPassesValidation isURL body \<and>
    snd (createProfile isURL body ps) =
      (if isDefault (createdDoc body ps)
       then map (\<lambda>p. if userId p = b_userId body then p\<lparr>isDefault := False\<rparr> else p) ps
       else ps) @ [createdDoc body ps])"
proof (cases "\<exists>p \<in> set ps. userId p = b_userId body \<and> profileName p = trim (b_profileName body)")
  case True
  from createProfile_taken [OF True] show ?thesis by simp
next
  case False
  show ?thesis
  proof (cases "bodyPassesValidation isURL body")
    case nv: False
    from createProfile_invalid [OF False nv] show ?thesis by auto
  next
    case True
    have i: "p_id (createdDoc body ps) = newObjectId ps" by (simp add: createdDoc_fields)
    from createProfile_valid [OF False True] True show ?thesis
      by (simp add: preSaveDefault_new [OF i] createdDoc_fields)
  qed
qed

lemma demote_account_invariant:
  assumes wf: "wellFormed isURL ps" and inv: "oneDefaultPerAccount ps"
    and v: "validateProfile isURL d = None" and i: "p_id d = newObjectId ps" and dflt: "isDefault d"
  shows "wellFormed isURL
           (map (\<lambda>p. if userId p = userId d then p\<lparr>isDefault := False\<rparr> else p) ps @ [d]) \<and>
         oneDefaultPerAccount
           (map (\<lambda>p. if userId p = userId d then p\<lparr>isDefault := False\<rparr> else p) ps @ [d])"
proof
  let ?D = "\<lambda>p. if userId p = userId d then p\<lparr>isDefault := False\<rparr> else p"
  have wf1: "wellFormed isURL (map ?D ps)"
    using wf by (intro wellFormed_map) (auto simp: validate_isDefault_update wellFormed_valid)
  have fresh: "\<forall>q \<in> set (map ?D ps). p_id q \<noteq> p_id d"
    using newObjectId_fresh [of _ ps] i by auto
  show "wellFormed isURL (map ?D ps @ [d])" by (rule wellFormed_append [OF wf1 v fresh])
  have zero: "defaultCount (userId d) (map ?D ps) = 0"
    by (simp add: defaultCount_map)
  have other: "defaultCount w (map ?D ps) = defaultCount w ps" if "w \<noteq> userId d" for w
    using that by (intro defaultCount_map_same) auto
  show "oneDefaultPerAccount (map ?D ps @ [d])"
    unfolding oneDefaultPerAccount_def
  proof
    fix q assume q: "q \<in> set (map ?D ps @ [d])"
    show "defaultCount (userId q) (map ?D ps @ [d]) = 1"
    proof (cases "userId q = userId d")
      case True
      with zero dflt show ?thesis by (simp add: defaultCount_append)
    next
      case False
      with q obtain p where p: "p \<in> set ps" and qp: "q = ?D p" by auto
      from qp have u: "userId q = userId p" by simp
      from oneDefaultD [OF inv p] other [OF False] u False show ?thesis
        by (simp add: defaultCount_append)
    qed
  qed
qed

lemma append_plain_invariant:
  assumes wf: "wellFormed isURL ps" and inv: "oneDefaultPerAccount ps"
    and v: "validateProfile isURL d = None" and i: "p_id d = newObjectId ps"
    and nd: "\<not> isDefault d" and has: "profilesOf (userId d) ps \<noteq> []"
  shows "wellFormed isURL (ps @ [d]) \<and> oneDefaultPerAccount (ps @ [d])"
proof
  have fresh: "\<forall>q \<in> set ps. p_id q \<noteq> p_id d"
    using newObjectId_fresh [of _ ps] i by auto
  show "wellFormed isURL (ps @ [d])" by (rule wellFormed_append [OF wf v fresh])
  from has obtain p where p: "p \<in> set ps" and pu: "userId p = userId d"
    by (auto simp: profilesOf_def filter_empty_conv)
  show "oneDefaultPerAccount (ps @ [d])"
    unfolding oneDefaultPerAccount_def
  proof
    fix q assume "q \<in> set (ps @ [d])"
    then have "q \<in> set ps \<or> q = d" by auto
    then have "defaultCount (userId q) ps = 1"
      using oneDefaultD [OF inv] p pu by metis
    with nd show "defaultCount (userId q) (ps @ [d]) = 1" by (simp add: defaultCount_append)
  qed
qed

lemma createProfile_invariant:
  assumes wf: "wellFormed isURL ps" and inv: "oneDefaultPerAccount ps"
  shows "wellFormed isURL (snd (createProfile isURL body ps)) \<and>
         oneDefaultPerAccount (snd (createProfile isURL body ps))"
proof -
  let ?d = "createdDoc body ps"
  from createProfile_snd_cases [of isURL body ps]
  show ?thesis
  proof
    assume "snd (createProfile isURL body ps) = ps"
    with wf inv show ?thesis by simp
  next
    assume h: "bodyPassesValidation isURL body \<and>
      snd (createProfile isURL body ps) =
        (if isDefault ?d
         then map (\<lambda>p. if userId p = b_userId body then p\<lparr>isDefault := False\<rparr> else p) ps
         else ps) @ [?d]"
    then have v: "validateProfile isURL ?d = None" by (simp add: createdDoc_valid)
    have i: "p_id ?d = newObjectId ps" and u: "userId ?d = b_userId body"
      by (simp_all add: createdDoc_fields)
    show ?thesis
    proof (cases "isDefault ?d")
      case True
      from demote_account_invariant [OF wf inv v i True] h True u show ?thesis by simp
    next
      case False
      then have "profilesOf (userId ?d) ps \<noteq> []" by (simp add: createdDoc_fields)
      from append_plain_invariant [OF wf inv v i False this] h False show ?thesis by simp
    qed
  qed
qed

lemma single_default:
  assumes c: "defaultCount w ps = 1"
    and a: "a \<in> set ps" "userId a = w" "isDefault a"
    and b: "b \<in> set ps" "userId b = w" "isDefault b"
  shows "a = b"
proof -
  from c obtain x where x: "filter (\<lambda>p. userId p = w \<and> isDefault p) ps = [x]"
    by (auto simp: defaultCount_def length_Suc_conv)
  from a have "a \<in> set (filter (\<lambda>p. userId p = w \<and> isDefault p) ps)" by simp
  moreover from b have "b \<in> set (filter (\<lambda>p. userId p = w \<and> isDefault p) ps)" by simp
  ultimately show ?thesis unfolding x by simp
qed

lemma promote_invariant:
  assumes wf: "wellFormed isURL ps" and inv: "oneDefaultPerAccount ps" and t: "target \<in> set ps"
    and di: "p_id doc = p_id target" and du: "userId doc = userId target"
    and dd: "isDefault doc" and dv: "validateProfile isURL doc = None"
  shows "wellFormed isURL
           (map (\<lambda>p. if p_id p = p_id target then doc
                     else if userId p = userId target then p\<lparr>isDefault := False\<rparr> else p) ps) \<and>
         oneDefaultPerAccount
           (map (\<lambda>p. if p_id p = p_id target then doc
                     else if userId p = userId target then p\<lparr>isDefault := False\<rparr> else p) ps)"
proof
  let ?H = "\<lambda>p. if p_id p = p_id target then doc
                 else if userId p = userId target then p\<lparr>isDefault := False\<rparr> else p"
  have dist: "distinct (map p_id ps)" using wf by (rule wellFormed_distinct)
  have same: "p = target" if "p \<in> set ps" "p_id p = p_id target" for p
    using same_id_same_doc [OF dist that(1) t that(2)] .
  show "wellFormed isURL (map ?H ps)"
    using wf di dv
    by (intro wellFormed_map) (auto simp: validate_isDefault_update wellFormed_valid)
  have uH: "userId (?H p) = userId p" if "p \<in> set ps" for p
    using same [OF that] du by auto
  have one: "defaultCount (userId target) (map ?H ps) = 1"
  proof (rule defaultCount_map_single [OF dist t], rule ballI)
    fix p assume p: "p \<in> set ps"
    show "(userId (?H p) = userId target \<and> isDefault (?H p)) = (p_id p = p_id target)"
      using du dd by auto
  qed
  have other: "defaultCount w (map ?H ps) = defaultCount w ps" if w: "w \<noteq> userId target" for w
  proof (rule defaultCount_map_same, rule ballI)
    fix p assume p: "p \<in> set ps"
    show "(userId (?H p) = w \<and> isDefault (?H p)) = (userId p = w \<and> isDefault p)"
      using same [OF p] w du by auto
  qed
  show "oneDefaultPerAccount (map ?H ps)"
    unfolding oneDefaultPerAccount_def
  proof
    fix q assume "q \<in> set (map ?H ps)"
    then obtain p where p: "p \<in> set ps" and q: "q = ?H p" by auto
    have u: "userId q = userId p" unfolding q by (rule uH [OF p])
    show "defaultCount (userId q) (map ?H ps) = 1"
    proof (cases "userId p = userId target")
      case True
      with one u show ?thesis by simp
    next
      case False
      from other [OF False] oneDefaultD [OF inv p] u show ?thesis by simp
    qed
  qed
qed

lemma replace_invariant:
  assumes wf: "wellFormed isURL ps" and inv: "oneDefaultPerAccount ps" and t: "target \<in> set ps"
    and di: "p_id doc = p_id target" and du: "userId doc = userId target"
    and dd: "isDefault doc = isDefault target" and dv: "validateProfile isURL doc = None"
  shows "wellFormed isURL (map (\<lambda>p. if p_id p = p_id target then doc else p) ps) \<and>
         oneDefaultPerAccount (map (\<lambda>p. if p_id p = p_id target then doc else p) ps)"
proof
  let ?H = "\<lambda>p. if p_id p = p_id target then doc else p"
  have dist: "distinct (map p_id ps)" using wf by (rule wellFormed_distinct)
  have same: "p = target" if "p \<in> set ps" "p_id p = p_id target" for p
    using same_id_same_doc [OF dist that(1) t that(2)] .
  show "wellFormed isURL (map ?H ps)"
    using wf di dv by (intro wellFormed_map) (auto simp: wellFormed_valid)
  have keep: "defaultCount w (map ?H ps) = defaultCount w ps" for w
  proof (rule defaultCount_map_same, rule ballI)
    fix p assume p: "p \<in> set ps"
    show "(userId (?H p) = w \<and> isDefault (?H p)) = (userId p = w \<and> isDefault p)"
      using same [OF p] du dd by auto
  qed
  show "oneDefaultPerAccount (map ?H ps)"
    unfolding oneDefaultPerAccount_def
  proof
    fix q assume "q \<in> set (map ?H ps)"
    then obtain p where p: "p \<in> set ps" and q: "q = ?H p" by auto
    have u: "userId q = userId p" unfolding q using same [OF p] du by auto
    from keep [of "userId p"] oneDefaultD [OF inv p] u
    show "defaultCount (userId q) (map ?H ps) = 1" by simp
  qed
qed

lemma remove_invariant:
  assumes wf: "wellFormed isURL qs" and inv: "oneDefaultPerAccount qs"
    and last: "\<forall>q \<in> set qs. p_id q = i \<and> isDefault q \<longrightarrow>
                 (\<forall>p \<in> set qs. userId p = userId q \<longrightarrow> p_id p = i)"
  shows "wellFormed isURL (filter (\<lambda>p. p_id p \<noteq> i) qs) \<and>
         oneDefaultPerAccount (filter (\<lambda>p. p_id p \<noteq> i) qs)"
proof
  show "wellFormed isURL (filter (\<lambda>p. p_id p \<noteq> i) qs)" using wf by (rule wellFormed_filter)
  show "oneDefaultPerAccount (filter (\<lambda>p. p_id p \<noteq> i) qs)"
    unfolding oneDefaultPerAccount_def
  proof
    fix r assume "r \<in> set (filter (\<lambda>p. p_id p \<noteq> i) qs)"
    then have r: "r \<in> set qs" and ri: "p_id r \<noteq> i" by simp_all
    have "filter (\<lambda>p. userId p = userId r \<and> isDefault p) (filter (\<lambda>p. p_id p \<noteq> i) qs) =
          filter (\<lambda>p. userId p = userId r \<and> isDefault p) qs"
      unfolding filter_filter
    proof (rule filter_cong [OF refl])
      fix p assume p: "p \<in> set qs"
      show "(p_id p \<noteq> i \<and> userId p = userId r \<and> isDefault p) = (userId p = userId r \<and> isDefault p)"
        using last p r ri by metis
    qed
    then have "defaultCount (userId r) (filter (\<lambda>p. p_id p \<noteq> i) qs) = defaultCount (userId r) qs"
      by (simp add: defaultCount_def)
    with oneDefaultD [OF inv r]
    show "defaultCount (userId r) (filter (\<lambda>p. p_id p \<noteq> i) qs) = 1" by simp
  qed
qed

lemma promote_result_doc:
  assumes dist: "distinct (map p_id ps)" and dd: "isDefault doc"
  shows "updateOne (\<lambda>p. p_id p = p_id doc) (\<lambda>p. doc) (preSaveDefault True doc ps) =
         map (\<lambda>p. if p_id p = p_id doc then doc
                   else if userId p = userId doc then p\<lparr>isDefault := False\<rparr> else p) ps"
proof -
  let ?ps1 = "preSaveDefault True doc ps"
  have d1: "distinct (map p_id ?ps1)" using dist by (simp add: map_p_id_preSaveDefault)
  have "?ps1 = map (\<lambda>p. if userId p = userId doc \<and> p_id p \<noteq> p_id doc
                         then p\<lparr>isDefault := False\<rparr> else p) ps"
    using dd by (simp add: preSaveDefault_def updateMany_def)
  then show ?thesis
    unfolding updateOne_map [OF d1] by (simp add: comp_def cong: if_cong)
qed

lemma assign_fields:
  "p_id (assign patch t) = p_id t"
  "userId (assign patch t) = userId t"
  "isDefault (assign patch t) = (case u_isDefault patch of Some v \<Rightarrow> v | None \<Rightarrow> isDefault t)"
  "profileName (assign patch t) =
     (case u_profileName patch of Some v \<Rightarrow> trim v | None \<Rightarrow> profileName t)"
  by (simp_all add: assign_def)

lemma validate_name_nonempty: "validateProfile isURL doc = None \<Longrightarrow> profileName doc \<noteq> []"
  by (auto simp: validateProfile_def split: if_splits)

lemma update_hook_passes:
  assumes g: "getProfileById i ps = Some t"
    and guard: "\<not> (case u_profileName patch of
                    Some name \<Rightarrow> name \<noteq> [] \<and> isProfileNameTaken name (userId t) (Some i) ps
                  | None \<Rightarrow> False)"
    and v: "validateProfile isURL (assign patch t) = None"
  shows "preSaveName (profileName (assign patch t) \<noteq> profileName t) (assign patch t)
           (preSaveDefault m (assign patch t) ps) = None"
proof (cases "profileName (assign patch t) \<noteq> profileName t")
  case False
  then show ?thesis by (simp add: preSaveName_def)
next
  case True
  let ?doc = "assign patch t"
  from g have ti: "p_id t = i" unfolding getProfileById_def by (auto dest: findOne_SomeD)
  from True obtain n where n: "u_profileName patch = Some n"
    and dn: "profileName ?doc = trim n"
    by (cases "u_profileName patch") (auto simp: assign_fields)
  from validate_name_nonempty [OF v] dn have "trim n \<noteq> []" by simp
  then have "n \<noteq> []" by (auto simp: trim_def)
  with guard n have "\<not> isProfileNameTaken n (userId t) (Some i) ps" by simp
  then have free: "\<forall>p \<in> set ps. \<not> (profileName p = trim n \<and> userId p = userId t \<and> p_id p \<noteq> i)"
    by (simp add: isProfileNameTaken_def findOne_None_iff)
  have "findOne (\<lambda>p. profileName p = profileName ?doc \<and> userId p = userId ?doc \<and>
                      p_id p \<noteq> p_id ?doc) (preSaveDefault m ?doc ps) = None"
    unfolding findOne_None_iff
  proof
    fix q assume "q \<in> set (preSaveDefault m ?doc ps)"
    from preSaveDefault_keeps_name [OF this] obtain p where p: "p \<in> set ps"
      and e: "userId q = userId p" "profileName q = profileName p" "p_id q = p_id p" by blast
    from free p have "\<not> (profileName p = trim n \<and> userId p = userId t \<and> p_id p \<noteq> i)" by blast
    with e dn ti
    show "\<not> (profileName q = profileName ?doc \<and> userId q = userId ?doc \<and> p_id q \<noteq> p_id ?doc)"
      by (simp add: assign_fields)
  qed
  then show ?thesis by (simp add: preSaveName_def)
qed

lemma updateProfileById_snd_cases:
  "snd (updateProfileById isURL i patch ps) = ps \<or>
   (\<exists>t. getProfileById i ps = Some t \<and> validateProfile isURL (assign patch t) = None \<and>
        snd (updateProfileById isURL i patch ps) =
          updateOne (\<lambda>p. p_id p = p_id (assign patch t)) (\<lambda>p. assign patch t)
            (preSaveDefault (isDefault (assign patch t) \<noteq> isDefault t) (assign patch t) ps))"
proof (cases "getProfileById i ps")
  case None
  then show ?thesis by (simp add: updateProfileById_def)
next
  case (Some t)
  show ?thesis
  proof (cases "case u_profileName patch of
                    Some name \<Rightarrow> name \<noteq> [] \<and> isProfileNameTaken name (userId t) (Some i) ps
                  | None \<Rightarrow> False")
    case True
    with Some show ?thesis by (simp add: updateProfileById_def)
  next
    case guard: False
    show ?thesis
    proof (cases "validateProfile isURL (assign patch t)")
      case (Some e)
      with \<open>getProfileById i ps = Some t\<close> guard show ?thesis
        by (simp add: updateProfileById_def saveProfile_invalid)
    next
      case None
      note hook = update_hook_passes [OF \<open>getProfileById i ps = Some t\<close> guard None]
      have "saveProfile isURL (Some t) (assign patch t) ps =
          (Inr (assign patch t),
           updateOne (\<lambda>p. p_id p = p_id (assign patch t)) (\<lambda>p. assign patch t)
             (preSaveDefault (isDefault (assign patch t) \<noteq> isDefault t) (assign patch t) ps))"
        using None hook by (simp add: saveProfile_def)
      with \<open>getProfileById i ps = Some t\<close> guard None show ?thesis
        by (simp add: updateProfileById_def)
    qed
  qed
qed

lemma updateProfileById_invariant:
  assumes wf: "wellFormed isURL ps" and inv: "oneDefaultPerAccount ps"
    and keeps: "u_isDefault patch \<noteq> Some False"
  shows "wellFormed isURL (snd (updateProfileById isURL i patch ps)) \<and>
         oneDefaultPerAccount (snd (updateProfileById isURL i patch ps))"
proof -
  have dist: "distinct (map p_id ps)" using wf by (rule wellFormed_distinct)
  from updateProfileById_snd_cases [of isURL i patch ps]
  show ?thesis
  proof
    assume "snd (updateProfileById isURL i patch ps) = ps"
    with wf inv show ?thesis by simp
  next
    assume "\<exists>t. getProfileById i ps = Some t \<and> validateProfile isURL (assign patch t) = None \<and>
        snd (updateProfileById isURL i patch ps) =
          updateOne (\<lambda>p. p_id p = p_id (assign patch t)) (\<lambda>p. assign patch t)
            (preSaveDefault (isDefault (assign patch t) \<noteq> isDefault t) (assign patch t) ps)"
    then obtain t where g: "getProfileById i ps = Some t"
      and v: "validateProfile isURL (assign patch t) = None"
      and s: "snd (updateProfileById isURL i patch ps) =
          updateOne (\<lambda>p. p_id p = p_id (assign patch t)) (\<lambda>p. assign patch t)
            (preSaveDefault (isDefault (assign patch t) \<noteq> isDefault t) (assign patch t) ps)"
      by blast
    let ?doc = "assign patch t"
    from g dist have t: "t \<in> set ps" by (simp add: getProfileById_Some_iff)
    have di: "p_id ?doc = p_id t" and du: "userId ?doc = userId t"
      by (simp_all add: assign_fields)
    from keeps have up: "isDefault t \<longrightarrow> isDefault ?doc"
      by (cases "u_isDefault patch") (auto simp: assign_fields)
    show ?thesis
    proof (cases "isDefault ?doc = isDefault t")
      case True
      then have "snd (updateProfileById isURL i patch ps) =
          map (\<lambda>p. if p_id p = p_id t then ?doc else p) ps"
        using s di by (simp add: preSaveDefault_def updateOne_map [OF dist])
      with replace_invariant [OF wf inv t di du True v] show ?thesis by simp
    next
      case False
      with up have dd: "isDefault ?doc" by auto
      from False have "snd (updateProfileById isURL i patch ps) =
          map (\<lambda>p. if p_id p = p_id ?doc then ?doc
                    else if userId p = userId ?doc then p\<lparr>isDefault := False\<rparr> else p) ps"
        using s promote_result_doc [OF dist dd] by simp
      then have "snd (updateProfileById isURL i patch ps) =
          map (\<lambda>p. if p_id p = p_id t then ?doc
                    else if userId p = userId t then p\<lparr>isDefault := False\<rparr> else p) ps"
        by (simp only: di du)
      with promote_invariant [OF wf inv t di du dd v] show ?thesis by simp
    qed
  qed
qed

lemma setDefaultProfile_snd:
  assumes dist: "distinct (map p_id ps)"
    and f: "findOne (\<lambda>p. p_id p = i \<and> userId p = uid) ps = Some t"
  shows "snd (setDefaultProfile uid i ps) =
         map (\<lambda>p. if p_id p = p_id t then t\<lparr>isDefault := True\<rparr>
                   else if userId p = userId t then p\<lparr>isDefault := False\<rparr> else p) ps"
proof -
  from findOne_SomeD [OF f] have t: "t \<in> set ps" and ti: "p_id t = i" and tu: "userId t = uid"
    by simp_all
  let ?ps1 = "updateMany (\<lambda>p. userId p = uid \<and> p_id p \<noteq> i) (\<lambda>p. p\<lparr>isDefault := False\<rparr>) ps"
  have ids: "map p_id ?ps1 = map p_id ps" by (simp add: updateMany_def comp_def)
  have d1: "distinct (map p_id ?ps1)" unfolding ids by (rule dist)
  have "snd (setDefaultProfile uid i ps) =
        updateOne (\<lambda>p. p_id p = i) (\<lambda>p. p\<lparr>isDefault := True\<rparr>) ?ps1"
    using f by (simp add: setDefaultProfile_def Let_def)
  also have "\<dots> = map (\<lambda>p. if p_id p = i then p\<lparr>isDefault := True\<rparr> else p) ?ps1"
    by (rule updateOne_map [OF d1])
  also have "\<dots> = map (\<lambda>p. if p_id p = p_id t then t\<lparr>isDefault := True\<rparr>
                   else if userId p = userId t then p\<lparr>isDefault := False\<rparr> else p) ps"
    unfolding updateMany_def map_map
  proof (rule map_cong [OF refl])
    fix p assume p: "p \<in> set ps"
    have "p_id p = i \<Longrightarrow> p = t" using same_id_same_doc [OF dist p t] ti by simp
    then show "((\<lambda>p. if p_id p = i then p\<lparr>isDefault := True\<rparr> else p) \<circ>
            (\<lambda>p. if userId p = uid \<and> p_id p \<noteq> i then p\<lparr>isDefault := False\<rparr> else p)) p =
          (if p_id p = p_id t then t\<lparr>isDefault := True\<rparr>
           else if userId p = userId t then p\<lparr>isDefault := False\<rparr> else p)"
      using ti tu by auto
  qed
  finally show ?thesis .
qed

lemma setDefaultProfile_invariant:
  assumes wf: "wellFormed isURL ps" and inv: "oneDefaultPerAccount ps"
  shows "wellFormed isURL (snd (setDefaultProfile uid i ps)) \<and>
         oneDefaultPerAccount (snd (setDefaultProfile uid i ps))"
proof (cases "findOne (\<lambda>p. p_id p = i \<and> userId p = uid) ps")
  case None
  with wf inv show ?thesis by (simp add: setDefaultProfile_def)
next
  case (Some t)
  have dist: "distinct (map p_id ps)" using wf by (rule wellFormed_distinct)
  from findOne_SomeD [OF Some] have t: "t \<in> set ps" by simp
  have v: "validateProfile isURL (t\<lparr>isDefault := True\<rparr>) = None"
    using wf t by (simp add: validate_isDefault_update wellFormed_valid)
  from promote_invariant [OF wf inv t, of "t\<lparr>isDefault := True\<rparr>"] v
    setDefaultProfile_snd [OF dist Some]
  show ?thesis by simp
qed

lemma deleteProfileById_invariant:
  assumes wf: "wellFormed isURL ps" and inv: "oneDefaultPerAccount ps"
  shows "wellFormed isURL (snd (deleteProfileById isURL i ps)) \<and>
         oneDefaultPerAccount (snd (deleteProfileById isURL i ps))"
proof (cases "getProfileById i ps")
  case None
  with wf inv show ?thesis by (simp add: deleteProfileById_missing)
next
  case (Some d)
  have dist: "distinct (map p_id ps)" using wf by (rule wellFormed_distinct)
  from Some dist have d: "d \<in> set ps" and di: "p_id d = i"
    by (simp_all add: getProfileById_Some_iff)
  show ?thesis
  proof (cases "\<not> isDefault d \<or>
      findOne (\<lambda>p. userId p = userId d \<and> p_id p \<noteq> i) ps = None")
    case True
    have last: "\<forall>q \<in> set ps. p_id q = i \<and> isDefault q \<longrightarrow>
                 (\<forall>p \<in> set ps. userId p = userId q \<longrightarrow> p_id p = i)"
    proof (intro ballI impI)
      fix q p assume q: "q \<in> set ps" and qi: "p_id q = i \<and> isDefault q"
        and p: "p \<in> set ps" and pu: "userId p = userId q"
      from same_id_same_doc [OF dist q d] qi di have qd: "q = d" by simp
      with qi True have "findOne (\<lambda>p. userId p = userId d \<and> p_id p \<noteq> i) ps = None" by simp
      with p pu qd show "p_id p = i" by (auto simp: findOne_None_iff)
    qed
    from deleteProfileById_plain [OF dist Some True] remove_invariant [OF wf inv last]
    show ?thesis by simp
  next
    case False
    then have dflt: "isDefault d" by simp
    from False obtain other
      where f: "findOne (\<lambda>p. userId p = userId d \<and> p_id p \<noteq> i) ps = Some other" by auto
    from findOne_SomeD [OF f] have o: "other \<in> set ps" and ou: "userId other = userId d"
      and oi: "p_id other \<noteq> i" by simp_all
    have nd: "\<not> isDefault other"
    proof
      assume "isDefault other"
      from single_default [OF oneDefaultD [OF inv d] d refl dflt o ou this] oi di
      show False by simp
    qed
    let ?H = "\<lambda>p. if p_id p = p_id other then other\<lparr>isDefault := True\<rparr>
                  else if userId p = userId other then p\<lparr>isDefault := False\<rparr> else p"
    have v: "validateProfile isURL (other\<lparr>isDefault := True\<rparr>) = None"
      using wf o by (simp add: validate_isDefault_update wellFormed_valid)
    from promote_invariant [OF wf inv o, of "other\<lparr>isDefault := True\<rparr>"] v
    have wf2: "wellFormed isURL (map ?H ps)" and inv2: "oneDefaultPerAccount (map ?H ps)"
      by simp_all
    have last: "\<forall>q \<in> set (map ?H ps). p_id q = i \<and> isDefault q \<longrightarrow>
                 (\<forall>p \<in> set (map ?H ps). userId p = userId q \<longrightarrow> p_id p = i)"
    proof (intro ballI impI)
      fix q r assume q: "q \<in> set (map ?H ps)" and qi: "p_id q = i \<and> isDefault q"
      from q obtain p where p: "p \<in> set ps" and qp: "q = ?H p" by auto
      have "p_id (?H p) = p_id p" by simp
      with qi qp have "p_id p = i" by simp
      from same_id_same_doc [OF dist p d] this di have "p = d" by simp
      with qp oi di ou have "q = d\<lparr>isDefault := False\<rparr>" by simp
      with qi have False by simp
      then show "p_id r = i" ..
    qed
    from deleteProfileById_promoting [OF wf Some dflt f nd] remove_invariant [OF wf2 inv2 last]
    show ?thesis by simp
  qed
qed

lemma applyProfileOp_invariant:
  assumes wf: "wellFormed isURL ps" and inv: "oneDefaultPerAccount ps" and k: "keepsDefaultFlag oper"
  shows "wellFormed isURL (applyProfileOp isURL oper ps) \<and> oneDefaultPerAccount (applyProfileOp isURL oper ps)"
proof (cases oper)
  case (CreateProfile body)
  with createProfile_invariant [OF wf inv] show ?thesis by simp
next
  case (UpdateProfileById i patch)
  with k have "u_isDefault patch \<noteq> Some False" by simp
  from updateProfileById_invariant [OF wf inv this] UpdateProfileById show ?thesis by simp
next
  case (SetDefaultProfile uid i)
  with setDefaultProfile_invariant [OF wf inv] show ?thesis by simp
next
  case (DeleteProfileById i)
  with deleteProfileById_invariant [OF wf inv] show ?thesis by simp
qed

text \<open>
  The extent of the defect behind C1: on a well-formed collection in which every account
  with a profile has exactly one default profile, every sequence of \<^verbatim>\<open>createProfile\<close>,
  \<^verbatim>\<open>updateProfileById\<close>, \<^verbatim>\<open>setDefaultProfile\<close> and \<^verbatim>\<open>deleteProfileById\<close> that contains no
  update with \<^verbatim>\<open>isDefault: false\<close> ends in such a collection again, whether the single
  operations succeed or fail.
\<close>

lemma applyProfileOps_invariant:
  "wellFormed isURL ps \<Longrightarrow> oneDefaultPerAccount ps \<Longrightarrow> list_all keepsDefaultFlag ops \<Longrightarrow>
   wellFormed isURL (applyProfileOps isURL ops ps) \<and> oneDefaultPerAccount (applyProfileOps isURL ops ps)"
proof (induction ops arbitrary: ps)
  case Nil
  then show ?case by simp
next
  case (Cons oper ops)
  from Cons.prems have k: "keepsDefaultFlag oper" and ks: "list_all keepsDefaultFlag ops"
    by simp_all
  from applyProfileOp_invariant [OF Cons.prems(1) Cons.prems(2) k]
  have "wellFormed isURL (applyProfileOp isURL oper ps)" and "oneDefaultPerAccount (applyProfileOp isURL oper ps)"
    by simp_all
  from Cons.IH [OF this ks] show ?case by simp
qed

text \<open>
  C1 fails on the code. An account has two profiles, the first one default: the
  collection is well formed and every account in it has exactly one default profile.
  \<^verbatim>\<open>updateProfileById\<close> of the default profile with \<^verbatim>\<open>{ isDefault: false }\<close>, a body the
  update validation admits, saves the profile with the flag cleared; the pre-save hook
  acts only on a flag that is set, and nothing promotes another profile. The account
  keeps its two profiles and has no default profile.
\<close>

theorem default_invariant_broken_by_update:
  "wellFormed sampleIsURL [profileA, profileB] \<and>
   oneDefaultPerAccount [profileA, profileB] \<and>
   updateProfileById sampleIsURL 1 unsetDefault [profileA, profileB] =
     (Inr (profileA\<lparr>isDefault := False\<rparr>), [profileA\<lparr>isDefault := False\<rparr>, profileB]) \<and>
   length (profilesOf 1 (applyProfileOps sampleIsURL [UpdateProfileById 1 unsetDefault] [profileA, profileB])) = 2 \<and>
   defaultCount 1 (applyProfileOps sampleIsURL [UpdateProfileById 1 unsetDefault] [profileA, profileB]) = 0 \<and>
   \<not> oneDefaultPerAccount (applyProfileOps sampleIsURL [UpdateProfileById 1 unsetDefault] [profileA, profileB])"
proof -
  have u: "updateProfileById sampleIsURL 1 unsetDefault [profileA, profileB] =
     (Inr (profileA\<lparr>isDefault := False\<rparr>), [profileA\<lparr>isDefault := False\<rparr>, profileB])"
    by (simp add: updateProfileById_def getProfileById_def assign_def unsetDefault_def
          profileA_def profileB_def eval_defs)
  have wf: "wellFormed sampleIsURL [profileA, profileB]"
    by (simp add: wellFormed_def validateProfile_def profileA_def profileB_def)
  have inv: "oneDefaultPerAccount [profileA, profileB]"
    by (simp add: oneDefaultPerAccount_def defaultCount_def profileA_def profileB_def)
  have after: "applyProfileOps sampleIsURL [UpdateProfileById 1 unsetDefault] [profileA, profileB] =
      [profileA\<lparr>isDefault := False\<rparr>, profileB]"
    using u by simp
  have n: "length (profilesOf 1 [profileA\<lparr>isDefault := False\<rparr>, profileB]) = 2"
    by (simp add: profilesOf_def profileA_def profileB_def)
  have c: "defaultCount 1 [profileA\<lparr>isDefault := False\<rparr>, profileB] = 0"
    by (simp add: defaultCount_def profileA_def profileB_def)
  have b: "\<not> oneDefaultPerAccount [profileA\<lparr>isDefault := False\<rparr>, profileB]"
    by (auto simp: oneDefaultPerAccount_def defaultCount_def profileA_def profileB_def)
  from u wf inv n c b show ?thesis unfolding after by simp
qed

theorem default_invariant_broken_by_update_witness:
  "defaultCount 1 [profileA, profileB] = 1 \<and>
   defaultCount 1 (snd (updateProfileById sampleIsURL 1 unsetDefault [profileA, profileB])) = 0"
proof -
  have before: "defaultCount 1 [profileA, profileB] = 1"
    by (simp add: defaultCount_def profileA_def profileB_def)
  from default_invariant_broken_by_update
  have "defaultCount 1 (applyProfileOps sampleIsURL [UpdateProfileById 1 unsetDefault] [profileA, profileB]) = 0"
    by blast
  with before show ?thesis by simp
qed

end
